theory Spec2Isabelle
  imports Complex_Main
begin

section \<open>Entity model (core/entities.py)\<close>

text \<open>
  Conventions of the embedding.
  \<^item> A Python \<open>datetime\<close> (naive) is the number of microseconds since 0001-01-01T00:00:00,
    a \<open>date\<close> the number of days since 0001-01-01, a \<open>timedelta\<close> a number of
    microseconds; all three are integers.
  \<^item> A Python \<open>float\<close> and a \<open>Decimal\<close> are exact real numbers: binary64 rounding and
    the 28-digit Decimal context are not modelled.
  \<^item> A \<open>dict\<close> is an association list in insertion order; the entity stored under a key
    is held by value.
  \<^item> A field that two dataclasses share by name carries the class name as a prefix;
    \<open>Client.size\<close> is \<open>size_range\<close>, and the member \<open>DISPUTED\<close> of
    \<open>ComplianceStatus\<close> is \<open>COMPLIANCE_DISPUTED\<close>.
  \<^item> A method \<open>_name\<close> of the engine is \<open>name\<close>. \<open>_collect_step_metrics\<close> is
    \<open>collect_metrics\<close>, because \<open>collect_step_metrics\<close> is the collector's own method;
    \<open>Scenario.apply\<close> is \<open>scenario_apply\<close>.
\<close>

type_synonym datetime = int
type_synonym date = int
type_synonym timedelta = int

datatype FreelancerType =
  INDEPENDENT_CONTRACTOR | GIG_WORKER | CONSULTANT | CREATIVE_PROFESSIONAL | TECHNICAL_SPECIALIST

datatype ClientType =
  SMALL_BUSINESS | MEDIUM_ENTERPRISE | LARGE_CORPORATION | STARTUP | NON_PROFIT | GOVERNMENT

datatype ContractStatus = DRAFT | NEGOTIATING | ACTIVE | COMPLETED | TERMINATED | DISPUTED

datatype ComplianceStatus = COMPLIANT | NON_COMPLIANT | PENDING_REVIEW | COMPLIANCE_DISPUTED

fun ContractStatus_value :: "ContractStatus \<Rightarrow> string" where
  "ContractStatus_value DRAFT = ''draft''"
| "ContractStatus_value NEGOTIATING = ''negotiating''"
| "ContractStatus_value ACTIVE = ''active''"
| "ContractStatus_value COMPLETED = ''completed''"
| "ContractStatus_value TERMINATED = ''terminated''"
| "ContractStatus_value DISPUTED = ''disputed''"

fun ComplianceStatus_value :: "ComplianceStatus \<Rightarrow> string" where
  "ComplianceStatus_value COMPLIANT = ''compliant''"
| "ComplianceStatus_value NON_COMPLIANT = ''non_compliant''"
| "ComplianceStatus_value PENDING_REVIEW = ''pending_review''"
| "ComplianceStatus_value COMPLIANCE_DISPUTED = ''disputed''"

record Freelancer =
  Freelancer_id :: string
  Freelancer_name :: string
  freelancer_type :: FreelancerType
  skills :: "string list"
  experience_years :: real
  hourly_rate :: real
  Freelancer_location :: string
  Freelancer_created_at :: datetime
  sb988_aware :: bool
  compliance_preference :: string
  administrative_capacity :: real
  annual_income :: "real option"
  primary_client_dependency :: real
  risk_tolerance :: real
  negotiation_skill :: real
  market_knowledge :: real

record Client =
  Client_id :: string
  Client_name :: string
  client_type :: ClientType
  industry :: string
  size_range :: string
  Client_location :: string
  Client_created_at :: datetime
  annual_revenue :: "real option"
  freelancer_spend_budget :: "real option"
  sb988_awareness :: real
  compliance_priority :: string
  legal_resources :: real
  risk_aversion :: real
  negotiation_power :: real
  market_influence :: real

record Contract =
  Contract_id :: string
  Contract_freelancer_id :: string
  Contract_client_id :: string
  title :: string
  Contract_description :: string
  Contract_status :: ContractStatus
  Contract_created_at :: datetime
  Contract_start_date :: "date option"
  Contract_end_date :: "date option"
  total_value :: real
  payment_terms :: string
  currency :: string
  estimated_hours :: "real option"
  actual_hours :: "real option"
  deliverables :: "string list"
  milestones :: "(string \<times> string) list list"
  sb988_compliant :: ComplianceStatus
  compliance_score :: real
  compliance_requirements :: "string list"
  administrative_burden_score :: real
  exclusivity_clause :: bool
  location_requirements :: "string option"
  equipment_provided :: bool
  supervision_level :: string

record Transaction =
  Transaction_id :: string
  Transaction_contract_id :: string
  Transaction_freelancer_id :: string
  Transaction_client_id :: string
  amount :: real
  transaction_date :: datetime
  payment_method :: string
  Transaction_status :: string
  compliance_costs :: real
  administrative_overhead :: real
  dispute_costs :: real
  Transaction_description :: "string option"
  reference_number :: "string option"

record MarketSnapshot =
  timestamp :: datetime
  total_freelancers :: nat
  total_clients :: nat
  active_contracts :: nat
  total_transaction_volume :: real
  average_hourly_rate :: real
  compliance_rate :: real
  market_demand :: real
  regulatory_pressure :: real
  economic_uncertainty :: real

text \<open>
  \<open>__post_init__\<close> of the four entity classes: \<open>if not self.id: self.id =
  str(uuid.uuid4())\<close>. The token that \<open>uuid4\<close> draws is an argument. (A Contract
  also replaces a missing list by an empty one; the record holds the lists as they are
  after that.)
\<close>

definition Freelancer_post_init :: "string \<Rightarrow> Freelancer \<Rightarrow> Freelancer" where
  "Freelancer_post_init token f = (if Freelancer_id f = [] then f\<lparr>Freelancer_id := token\<rparr> else f)"

definition Client_post_init :: "string \<Rightarrow> Client \<Rightarrow> Client" where
  "Client_post_init token c = (if Client_id c = [] then c\<lparr>Client_id := token\<rparr> else c)"

definition Contract_post_init :: "string \<Rightarrow> Contract \<Rightarrow> Contract" where
  "Contract_post_init token c = (if Contract_id c = [] then c\<lparr>Contract_id := token\<rparr> else c)"

definition Transaction_post_init :: "string \<Rightarrow> Transaction \<Rightarrow> Transaction" where
  "Transaction_post_init token t =
     (if Transaction_id t = [] then t\<lparr>Transaction_id := token\<rparr> else t)"

section \<open>Simulation engine (core/simulation_engine.py)\<close>

record SimulationConfig =
  start_date :: datetime
  end_date :: datetime
  time_step :: timedelta
  initial_freelancers :: int
  initial_clients :: int
  market_volatility :: real
  regulatory_enforcement_level :: real
  agent_interaction_probability :: real
  contract_formation_rate :: real
  base_hourly_rate :: real
  inflation_rate :: real
  sb988_enforcement_date :: "datetime option"
  compliance_grace_period :: int
  random_seed :: "int option"
  max_iterations :: int
  convergence_threshold :: real

text \<open>
  \<open>numpy.var\<close> with its default arguments: the mean of the squared deviations from
  the mean (population variance, no Bessel correction).
\<close>

definition np_mean :: "real list \<Rightarrow> real" where
  "np_mean xs = sum_list xs / real (length xs)"

definition np_var :: "real list \<Rightarrow> real" where
  "np_var xs = (let arrmean = np_mean xs in np_mean (map (\<lambda>x. (x - arrmean) * (x - arrmean)) xs))"

text \<open>The slice \<open>xs[-10:]\<close>: the last ten elements, or all of them when there are fewer.\<close>

definition last10 :: "'a list \<Rightarrow> 'a list" where
  "last10 xs = drop (length xs - 10) xs"


text \<open>
  Every raise is a value. \<open>OverflowError\<close> is what \<open>datetime + timedelta\<close> raises
  when the sum leaves the years 1 to 9999; \<open>Raised msg\<close> is an exception thrown by a
  callable that the engine invokes. A call that raises has still mutated what it was
  handed, so both results carry the state: \<open>Inl (err, s)\<close> is a raise that leaves
  \<open>s\<close> behind, \<open>Inr s\<close> a normal return.
\<close>

datatype error = OverflowError | Raised string

type_synonym 's outcome = "(error \<times> 's) + 's"

definition and_then :: "'s outcome \<Rightarrow> ('s \<Rightarrow> 's outcome) \<Rightarrow> 's outcome" where
  "and_then r f = (case r of Inl x \<Rightarrow> Inl x | Inr s \<Rightarrow> f s)"

definition state_of :: "'s outcome \<Rightarrow> 's" where
  "state_of r = (case r of Inl (err, s) \<Rightarrow> s | Inr s \<Rightarrow> s)"

text \<open>
  The state outside the engine object: the generator behind \<open>np.random\<close>, which is
  process-wide, and whatever the injected callables, the scenarios and the metrics
  collector keep for themselves (\<open>private_state\<close>). The generator state is abstract:
  \<open>Entropy n\<close> is a state taken from operating-system entropy when the interpreter
  started, \<open>Seeded s\<close> the state that \<open>np.random.seed(s)\<close> sets, \<open>Drawn r\<close> the
  state after one draw from \<open>r\<close>.
\<close>

datatype rng_state = Entropy nat | Seeded int | Drawn rng_state

record 'w world =
  np_random_state :: rng_state
  private_state :: 'w

definition np_random_seed :: "int \<Rightarrow> 'w world \<Rightarrow> 'w world" where
  "np_random_seed s w = w\<lparr>np_random_state := Seeded s\<rparr>"

text \<open>
  The callables. Each receives its keyword arguments and the world, and hands back every
  object it was given by reference, as it left it, together with the world: a behavioural
  model reaches the engine's state through its arguments only. The value a behavioural
  model returns is never used by the engine and is left out.
\<close>

type_synonym 'w population =
  "(string \<times> Freelancer) list \<times> (string \<times> Client) list \<times> (string \<times> Contract) list \<times> 'w world"

type_synonym 'w market_model =
  "(string \<times> Freelancer) list \<Rightarrow> (string \<times> Client) list \<Rightarrow> (string \<times> Contract) list
     \<Rightarrow> datetime \<Rightarrow> 'w world \<Rightarrow> 'w population outcome"

type_synonym 'w freelancer_model =
  "Freelancer \<Rightarrow> MarketSnapshot option \<Rightarrow> Client list \<Rightarrow> datetime \<Rightarrow> 'w world
     \<Rightarrow> (Freelancer \<times> MarketSnapshot option \<times> Client list \<times> 'w world) outcome"

type_synonym 'w client_model =
  "Client \<Rightarrow> MarketSnapshot option \<Rightarrow> Freelancer list \<Rightarrow> datetime \<Rightarrow> 'w world
     \<Rightarrow> (Client \<times> MarketSnapshot option \<times> Freelancer list \<times> 'w world) outcome"

text \<open>
  Modelled from the spec: core/scenario.py is not among the sources. A Scenario has the
  capabilities \<open>is_active(time)\<close>, which answers whether its effects apply at that time,
  \<open>apply(freelancers, clients, contracts, current_time)\<close>, which mutates the mappings in
  place, and \<open>get_results()\<close>, which returns a summary.
\<close>

record ('w, 'r) Scenario =
  is_active :: "datetime \<Rightarrow> 'w world \<Rightarrow> (error \<times> 'w world) + (bool \<times> 'w world)"
  scenario_apply :: "'w market_model"
  get_results :: "'w world \<Rightarrow> error + 'r"

text \<open>
  Modelled from the spec: core/metrics.py is not among the sources. A MetricsCollector
  has \<open>collect_step_metrics\<close>, called with the entity and transaction state and the
  current time, which accumulates aggregates and must not mutate any entity it observes,
  and \<open>get_summary\<close>, which returns what was accumulated.
\<close>

record ('w, 'r) MetricsCollector =
  collect_step_metrics ::
    "(string \<times> Freelancer) list \<Rightarrow> (string \<times> Client) list \<Rightarrow> (string \<times> Contract) list
       \<Rightarrow> Transaction list \<Rightarrow> datetime \<Rightarrow> 'w world \<Rightarrow> 'w world outcome"
  get_summary :: "'w world \<Rightarrow> error + 'r"

text \<open>
  The calls the engine makes to code that is not its own, with the arguments that
  identify them: the dictionary key of the agent, the \<open>market_state\<close> argument, the
  position of the scenario in \<open>self.scenarios\<close>, the \<open>current_time\<close> argument. The
  \<open>market_state\<close> argument is \<open>None\<close> or an object of \<open>self.market_snapshots\<close>:
  the history names the object by its position in that list, next to its content at the
  time of the call.
\<close>

datatype call =
    Call_market_dynamics_model datetime
  | Call_freelancer_behavior_model string "(nat \<times> MarketSnapshot) option" datetime
  | Call_client_behavior_model string "(nat \<times> MarketSnapshot) option" datetime
  | Call_is_active nat datetime
  | Call_apply nat datetime
  | Call_collect_step_metrics datetime

datatype callee =
    MarketDynamicsModel
  | FreelancerBehaviorModel string
  | ClientBehaviorModel string
  | IsActive nat
  | Apply nat
  | CollectStepMetrics

fun callee_of :: "call \<Rightarrow> callee" where
  "callee_of (Call_market_dynamics_model t) = MarketDynamicsModel"
| "callee_of (Call_freelancer_behavior_model k ms t) = FreelancerBehaviorModel k"
| "callee_of (Call_client_behavior_model k ms t) = ClientBehaviorModel k"
| "callee_of (Call_is_active i t) = IsActive i"
| "callee_of (Call_apply i t) = Apply i"
| "callee_of (Call_collect_step_metrics t) = CollectStepMetrics"

fun call_time :: "call \<Rightarrow> datetime" where
  "call_time (Call_market_dynamics_model t) = t"
| "call_time (Call_freelancer_behavior_model k ms t) = t"
| "call_time (Call_client_behavior_model k ms t) = t"
| "call_time (Call_is_active i t) = t"
| "call_time (Call_apply i t) = t"
| "call_time (Call_collect_step_metrics t) = t"

fun agent_call :: "call \<Rightarrow> bool" where
  "agent_call (Call_freelancer_behavior_model k ms t) = True"
| "agent_call (Call_client_behavior_model k ms t) = True"
| "agent_call c = False"

fun market_state_arg :: "call \<Rightarrow> (nat \<times> MarketSnapshot) option" where
  "market_state_arg (Call_freelancer_behavior_model k ms t) = ms"
| "market_state_arg (Call_client_behavior_model k ms t) = ms"
| "market_state_arg c = None"

text \<open>
  The attributes of \<open>SimulationEngine\<close>, the world, and a history of the calls made so
  far (\<open>calls\<close>, which no definition reads). A model slot holds \<open>None\<close> or a callable;
  the logger is left out.
\<close>

record ('w, 'r) SimulationEngine =
  config :: SimulationConfig
  current_time :: datetime
  freelancers :: "(string \<times> Freelancer) list"
  clients :: "(string \<times> Client) list"
  contracts :: "(string \<times> Contract) list"
  transactions :: "Transaction list"
  market_snapshots :: "MarketSnapshot list"
  metrics_collector :: "('w, 'r) MetricsCollector"
  scenarios :: "('w, 'r) Scenario list"
  freelancer_behavior_model :: "'w freelancer_model option"
  client_behavior_model :: "'w client_model option"
  market_dynamics_model :: "'w market_model option"
  outside :: "'w world"
  calls :: "call list"

text \<open>
  \<open>__init__\<close>, run in a process whose state is \<open>w\<close>; \<open>mc\<close> is what
  \<open>MetricsCollector()\<close> constructs. The test \<open>if config.random_seed:\<close> is Python
  truthiness: \<open>None\<close> and \<open>0\<close> are both false.
\<close>

definition SimulationEngine_init ::
  "('w, 'r) MetricsCollector \<Rightarrow> SimulationConfig \<Rightarrow> 'w world \<Rightarrow> ('w, 'r) SimulationEngine" where
  "SimulationEngine_init mc cfg w =
     \<lparr>config = cfg, current_time = start_date cfg,
      freelancers = [], clients = [], contracts = [], transactions = [],
      market_snapshots = [], metrics_collector = mc, scenarios = [],
      freelancer_behavior_model = None, client_behavior_model = None,
      market_dynamics_model = None,
      outside = (case random_seed cfg of
                   None \<Rightarrow> w
                 | Some s \<Rightarrow> if s \<noteq> 0 then np_random_seed s w else w),
      calls = []\<rparr>"

definition add_scenario ::
  "('w, 'r) Scenario \<Rightarrow> ('w, 'r) SimulationEngine \<Rightarrow> ('w, 'r) SimulationEngine" where
  "add_scenario scenario e = e\<lparr>scenarios := scenarios e @ [scenario]\<rparr>"

definition set_behavioral_models ::
  "'w freelancer_model option \<Rightarrow> 'w client_model option \<Rightarrow> 'w market_model option
     \<Rightarrow> ('w, 'r) SimulationEngine \<Rightarrow> ('w, 'r) SimulationEngine" where
  "set_behavioral_models freelancer_model client_model market_model e =
     (let e1 = (case freelancer_model of None \<Rightarrow> e
                | Some m \<Rightarrow> e\<lparr>freelancer_behavior_model := Some m\<rparr>);
          e2 = (case client_model of None \<Rightarrow> e1
                | Some m \<Rightarrow> e1\<lparr>client_behavior_model := Some m\<rparr>)
      in (case market_model of None \<Rightarrow> e2
          | Some m \<Rightarrow> e2\<lparr>market_dynamics_model := Some m\<rparr>))"

definition initialize_population :: "('w, 'r) SimulationEngine \<Rightarrow> ('w, 'r) SimulationEngine" where
  "initialize_population e = e"


subsection \<open>Dates\<close>

text \<open>
  \<open>datetime.date()\<close> drops the time of day. \<open>datetime_ymd y m d\<close> is midnight of a
  calendar day, counted as the standard library's proleptic Gregorian ordinal does.
\<close>

definition microseconds_per_day :: int where
  "microseconds_per_day = 86400000000"

definition date_of :: "datetime \<Rightarrow> date" where
  "date_of t = t div microseconds_per_day"

definition days_before_year :: "int \<Rightarrow> int" where
  "days_before_year y = (y - 1) * 365 + (y - 1) div 4 - (y - 1) div 100 + (y - 1) div 400"

definition is_leap :: "int \<Rightarrow> bool" where
  "is_leap y = (if y mod 100 = 0 then y mod 400 = 0 else y mod 4 = 0)"

definition days_before_month :: "int \<Rightarrow> nat \<Rightarrow> int" where
  "days_before_month y m =
     sum_list (take (m - 1) [31, 28, 31, 30, 31, 30, 31, 31, 30, 31, 30, 31])
       + (if 2 < m \<and> is_leap y then 1 else 0)"

definition date_ymd :: "int \<Rightarrow> nat \<Rightarrow> int \<Rightarrow> date" where
  "date_ymd y m d = days_before_year y + days_before_month y m + d - 1"

definition datetime_ymd :: "int \<Rightarrow> nat \<Rightarrow> int \<Rightarrow> datetime" where
  "datetime_ymd y m d = date_ymd y m d * microseconds_per_day"

definition timedelta_days :: "int \<Rightarrow> timedelta" where
  "timedelta_days n = n * microseconds_per_day"

text \<open>\<open>datetime.max\<close> is 9999-12-31T23:59:59.999999, the last microsecond of day 3652058.\<close>

definition datetime_max :: datetime where
  "datetime_max = 3652059 * microseconds_per_day - 1"

definition datetime_add :: "datetime \<Rightarrow> timedelta \<Rightarrow> error + datetime" where
  "datetime_add t d = (if 0 \<le> t + d \<and> t + d \<le> datetime_max then Inr (t + d) else Inl OverflowError)"

subsection \<open>Derived aggregates\<close>

definition calculate_average_hourly_rate :: "('w, 'r) SimulationEngine \<Rightarrow> real" where
  "calculate_average_hourly_rate e =
     (if freelancers e = [] then 0
      else np_mean (map (\<lambda>(k, f). hourly_rate f) (freelancers e)))"

definition calculate_compliance_rate :: "('w, 'r) SimulationEngine \<Rightarrow> real" where
  "calculate_compliance_rate e =
     (if contracts e = [] then 0
      else real (length (filter (\<lambda>(k, c). ComplianceStatus_value (sb988_compliant c) = ''compliant'')
                          (contracts e)))
             / real (length (contracts e)))"

subsection \<open>Phase 1: market conditions\<close>

definition store_population ::
  "'w population \<Rightarrow> ('w, 'r) SimulationEngine \<Rightarrow> ('w, 'r) SimulationEngine" where
  "store_population p e =
     (case p of (fs, cs, ks, w) \<Rightarrow>
        e\<lparr>freelancers := fs, clients := cs, contracts := ks, outside := w\<rparr>)"

definition new_snapshot :: "('w, 'r) SimulationEngine \<Rightarrow> MarketSnapshot" where
  "new_snapshot e =
     \<lparr>timestamp = current_time e,
      total_freelancers = length (freelancers e),
      total_clients = length (clients e),
      active_contracts =
        length (filter (\<lambda>(k, c). ContractStatus_value (Contract_status c) = ''active'') (contracts e)),
      total_transaction_volume =
        sum_list (map amount
          (filter (\<lambda>t. date_of (transaction_date t) = date_of (current_time e)) (transactions e))),
      average_hourly_rate = calculate_average_hourly_rate e,
      compliance_rate = calculate_compliance_rate e,
      market_demand = 1 / 2, regulatory_pressure = 1 / 2, economic_uncertainty = 1 / 2\<rparr>"

definition append_snapshot :: "('w, 'r) SimulationEngine \<Rightarrow> ('w, 'r) SimulationEngine" where
  "append_snapshot e = e\<lparr>market_snapshots := market_snapshots e @ [new_snapshot e]\<rparr>"

definition update_market_conditions :: "('w, 'r) SimulationEngine \<Rightarrow> ('w, 'r) SimulationEngine outcome" where
  "update_market_conditions e =
     (case market_dynamics_model e of
        None \<Rightarrow> Inr (append_snapshot e)
      | Some m \<Rightarrow>
          (let e1 = e\<lparr>calls := calls e @ [Call_market_dynamics_model (current_time e)]\<rparr> in
           case m (freelancers e) (clients e) (contracts e) (current_time e) (outside e) of
             Inl (err, p) \<Rightarrow> Inl (err, store_population p e1)
           | Inr p \<Rightarrow> Inr (append_snapshot (store_population p e1))))"

subsection \<open>Phase 2: agent behaviours\<close>

text \<open>
  \<open>self.market_snapshots[-1] if self.market_snapshots else None\<close>, and what a callee
  that was handed that object leaves in the list. \<open>store_values\<close> puts the objects of a
  \<open>list(d.values())\<close> back under their keys: the list itself was a copy, the objects in
  it were not.
\<close>

definition market_state :: "('w, 'r) SimulationEngine \<Rightarrow> MarketSnapshot option" where
  "market_state e =
     (if market_snapshots e \<noteq> [] then Some (last (market_snapshots e)) else None)"

definition market_state_ref :: "('w, 'r) SimulationEngine \<Rightarrow> (nat \<times> MarketSnapshot) option" where
  "market_state_ref e =
     (if market_snapshots e \<noteq> []
      then Some (length (market_snapshots e) - 1, last (market_snapshots e)) else None)"

definition store_market_state :: "MarketSnapshot option \<Rightarrow> MarketSnapshot list \<Rightarrow> MarketSnapshot list" where
  "store_market_state ms snaps =
     (case ms of
        None \<Rightarrow> snaps
      | Some s \<Rightarrow> if snaps \<noteq> [] then butlast snaps @ [s] else snaps)"

fun store_values :: "'a list \<Rightarrow> (string \<times> 'a) list \<Rightarrow> (string \<times> 'a) list" where
  "store_values (v # vs) ((k, old) # kvs) = (k, v) # store_values vs kvs"
| "store_values vs kvs = kvs"

text \<open>
  The loop over \<open>self.freelancers.values()\<close>. The second argument is the position in
  the dictionary, the third what is left to visit; no call of the loop can reach another
  freelancer, so the entries left are the ones the dictionary holds.
\<close>

fun freelancer_calls ::
  "'w freelancer_model \<Rightarrow> nat \<Rightarrow> (string \<times> Freelancer) list \<Rightarrow> ('w, 'r) SimulationEngine
     \<Rightarrow> ('w, 'r) SimulationEngine outcome" where
  "freelancer_calls m i [] e = Inr e"
| "freelancer_calls m i ((k, f) # rest) e =
     (let e1 = e\<lparr>calls := calls e @
                  [Call_freelancer_behavior_model k (market_state_ref e) (current_time e)]\<rparr> in
      case m f (market_state e) (map snd (clients e)) (current_time e) (outside e) of
        Inl (err, (f', ms', cs', w')) \<Rightarrow>
          Inl (err, e1\<lparr>freelancers := (freelancers e)[i := (k, f')],
                       market_snapshots := store_market_state ms' (market_snapshots e),
                       clients := store_values cs' (clients e), outside := w'\<rparr>)
      | Inr (f', ms', cs', w') \<Rightarrow>
          freelancer_calls m (Suc i) rest
            (e1\<lparr>freelancers := (freelancers e)[i := (k, f')],
                market_snapshots := store_market_state ms' (market_snapshots e),
                clients := store_values cs' (clients e), outside := w'\<rparr>))"

fun client_calls ::
  "'w client_model \<Rightarrow> nat \<Rightarrow> (string \<times> Client) list \<Rightarrow> ('w, 'r) SimulationEngine
     \<Rightarrow> ('w, 'r) SimulationEngine outcome" where
  "client_calls m i [] e = Inr e"
| "client_calls m i ((k, c) # rest) e =
     (let e1 = e\<lparr>calls := calls e @
                  [Call_client_behavior_model k (market_state_ref e) (current_time e)]\<rparr> in
      case m c (market_state e) (map snd (freelancers e)) (current_time e) (outside e) of
        Inl (err, (c', ms', fs', w')) \<Rightarrow>
          Inl (err, e1\<lparr>clients := (clients e)[i := (k, c')],
                       market_snapshots := store_market_state ms' (market_snapshots e),
                       freelancers := store_values fs' (freelancers e), outside := w'\<rparr>)
      | Inr (c', ms', fs', w') \<Rightarrow>
          client_calls m (Suc i) rest
            (e1\<lparr>clients := (clients e)[i := (k, c')],
                market_snapshots := store_market_state ms' (market_snapshots e),
                freelancers := store_values fs' (freelancers e), outside := w'\<rparr>))"

definition execute_freelancer_behaviors ::
  "('w, 'r) SimulationEngine \<Rightarrow> ('w, 'r) SimulationEngine outcome" where
  "execute_freelancer_behaviors e =
     (case freelancer_behavior_model e of
        None \<Rightarrow> Inr e
      | Some m \<Rightarrow> freelancer_calls m 0 (freelancers e) e)"

definition execute_client_behaviors ::
  "('w, 'r) SimulationEngine \<Rightarrow> ('w, 'r) SimulationEngine outcome" where
  "execute_client_behaviors e =
     (case client_behavior_model e of
        None \<Rightarrow> Inr e
      | Some m \<Rightarrow> client_calls m 0 (clients e) e)"

definition execute_agent_behaviors ::
  "('w, 'r) SimulationEngine \<Rightarrow> ('w, 'r) SimulationEngine outcome" where
  "execute_agent_behaviors e = and_then (execute_freelancer_behaviors e) execute_client_behaviors"


subsection \<open>Phase 3: contract lifecycle\<close>

definition process_contract :: "datetime \<Rightarrow> Contract \<Rightarrow> Contract" where
  "process_contract now c =
     (case Contract_end_date c of
        None \<Rightarrow> c
      | Some d \<Rightarrow>
          if date_of now > d \<and> ContractStatus_value (Contract_status c) = ''active''
          then c\<lparr>Contract_status := COMPLETED\<rparr> else c)"

definition process_contracts :: "('w, 'r) SimulationEngine \<Rightarrow> ('w, 'r) SimulationEngine" where
  "process_contracts e =
     e\<lparr>contracts := map (\<lambda>(k, c). (k, process_contract (current_time e) c)) (contracts e)\<rparr>"

subsection \<open>Phase 4: regulatory scenarios\<close>

fun scenario_calls ::
  "nat \<Rightarrow> ('w, 'r) Scenario list \<Rightarrow> ('w, 'r) SimulationEngine \<Rightarrow> ('w, 'r) SimulationEngine outcome" where
  "scenario_calls i [] e = Inr e"
| "scenario_calls i (scenario # rest) e =
     (let e1 = e\<lparr>calls := calls e @ [Call_is_active i (current_time e)]\<rparr> in
      case is_active scenario (current_time e) (outside e) of
        Inl (err, w) \<Rightarrow> Inl (err, e1\<lparr>outside := w\<rparr>)
      | Inr (active, w) \<Rightarrow>
          if active then
            (let e2 = e1\<lparr>calls := calls e1 @ [Call_apply i (current_time e)]\<rparr> in
             case scenario_apply scenario (freelancers e) (clients e) (contracts e) (current_time e) w of
               Inl (err, p) \<Rightarrow> Inl (err, store_population p e2)
             | Inr p \<Rightarrow> scenario_calls (Suc i) rest (store_population p e2))
          else scenario_calls (Suc i) rest (e1\<lparr>outside := w\<rparr>))"

definition apply_regulatory_scenarios ::
  "('w, 'r) SimulationEngine \<Rightarrow> ('w, 'r) SimulationEngine outcome" where
  "apply_regulatory_scenarios e = scenario_calls 0 (scenarios e) e"

subsection \<open>Phase 5: metrics\<close>

definition collect_metrics :: "('w, 'r) SimulationEngine \<Rightarrow> ('w, 'r) SimulationEngine outcome" where
  "collect_metrics e =
     (let e1 = e\<lparr>calls := calls e @ [Call_collect_step_metrics (current_time e)]\<rparr> in
      case collect_step_metrics (metrics_collector e) (freelancers e) (clients e) (contracts e)
             (transactions e) (current_time e) (outside e) of
        Inl (err, w) \<Rightarrow> Inl (err, e1\<lparr>outside := w\<rparr>)
      | Inr w \<Rightarrow> Inr (e1\<lparr>outside := w\<rparr>))"

subsection \<open>Phase 6 and the step\<close>

definition advance_time :: "('w, 'r) SimulationEngine \<Rightarrow> ('w, 'r) SimulationEngine outcome" where
  "advance_time e =
     (case datetime_add (current_time e) (time_step (config e)) of
        Inl err \<Rightarrow> Inl (err, e)
      | Inr t \<Rightarrow> Inr (e\<lparr>current_time := t\<rparr>))"

definition step :: "('w, 'r) SimulationEngine \<Rightarrow> ('w, 'r) SimulationEngine outcome" where
  "step e =
     and_then (update_market_conditions e) (\<lambda>e1.
     and_then (execute_agent_behaviors e1) (\<lambda>e2.
     and_then (Inr (process_contracts e2)) (\<lambda>e3.
     and_then (apply_regulatory_scenarios e3) (\<lambda>e4.
     and_then (collect_metrics e4) advance_time))))"

text \<open>\<open>steps n\<close> is \<open>n\<close> calls of \<open>step()\<close> in a row, ended by the first that raises.\<close>

fun steps :: "nat \<Rightarrow> ('w, 'r) SimulationEngine \<Rightarrow> ('w, 'r) SimulationEngine outcome" where
  "steps 0 e = Inr e"
| "steps (Suc n) e = and_then (step e) (steps n)"

subsection \<open>Convergence\<close>

definition check_convergence :: "('w, 'r) SimulationEngine \<Rightarrow> bool" where
  "check_convergence e =
     (if length (market_snapshots e) < 10 then False
      else (let recent_snapshots = last10 (market_snapshots e);
                compliance_rates = map compliance_rate recent_snapshots;
                variance = np_var compliance_rates
            in variance < convergence_threshold (config e)))"


subsection \<open>The run\<close>

text \<open>
  The loop of \<open>run()\<close>, with the engine and the local \<open>iteration\<close> as its state. It
  stops because \<open>iteration\<close> grows towards \<open>max_iterations\<close>, which no step changes.
\<close>

function run_loop ::
  "('w, 'r) SimulationEngine \<Rightarrow> int \<Rightarrow> (error \<times> ('w, 'r) SimulationEngine) + (('w, 'r) SimulationEngine \<times> int)" where
  "run_loop e iteration =
     (if current_time e \<le> end_date (config e) \<and> iteration < max_iterations (config e) then
        (case step e of
           Inl x \<Rightarrow> Inl x
         | Inr e' \<Rightarrow>
             if check_convergence e' then Inr (e', iteration + 1)
             else run_loop e' (iteration + 1))
      else Inr (e, iteration))"
  by pat_completeness auto
termination
proof (relation "measure (\<lambda>(e, iteration). nat (max_iterations (config e) - iteration))")
  show "wf (measure (\<lambda>(e :: ('w, 'r) SimulationEngine, iteration). nat (max_iterations (config e) - iteration)))"
    by simp
next
  fix e :: "('w, 'r) SimulationEngine" and iteration :: int and e' :: "('w, 'r) SimulationEngine"
  assume guard: "current_time e \<le> end_date (config e) \<and> iteration < max_iterations (config e)"
    and st: "step e = Inr e'"
  have fc: "config b = config a" if "freelancer_calls m i xs a = Inr b"
    for m i xs and a b :: "('w, 'r) SimulationEngine"
    using that
  proof (induction xs arbitrary: i a)
    case Nil
    then show ?case by simp
  next
    case (Cons x xs)
    obtain k f where x: "x = (k, f)" by (cases x)
    from Cons.prems show ?case
      by (auto simp: x Let_def split: sum.splits prod.splits dest!: Cons.IH)
  qed
  have cc: "config b = config a" if "client_calls m i xs a = Inr b"
    for m i xs and a b :: "('w, 'r) SimulationEngine"
    using that
  proof (induction xs arbitrary: i a)
    case Nil
    then show ?case by simp
  next
    case (Cons x xs)
    obtain k c where x: "x = (k, c)" by (cases x)
    from Cons.prems show ?case
      by (auto simp: x Let_def split: sum.splits prod.splits dest!: Cons.IH)
  qed
  have sc: "config b = config a" if "scenario_calls i xs a = Inr b"
    for i xs and a b :: "('w, 'r) SimulationEngine"
    using that
  proof (induction xs arbitrary: i a)
    case Nil
    then show ?case by simp
  next
    case (Cons x xs)
    from Cons.prems show ?case
      by (auto simp: Let_def store_population_def split: sum.splits prod.splits if_splits
          dest!: Cons.IH)
  qed
  from st have "config e' = config e"
    by (auto simp: step_def and_then_def update_market_conditions_def append_snapshot_def
        store_population_def execute_agent_behaviors_def execute_freelancer_behaviors_def
        execute_client_behaviors_def process_contracts_def apply_regulatory_scenarios_def
        collect_metrics_def advance_time_def Let_def
        split: sum.splits option.splits prod.splits
        dest!: fc cc sc)
  with guard show "((e', iteration + 1), (e, iteration))
      \<in> measure (\<lambda>(e, iteration). nat (max_iterations (config e) - iteration))"
    by simp
qed

declare run_loop.simps [simp del]

text \<open>The dictionary \<open>_generate_results\<close> builds, as a record.\<close>

record 'r SimulationResults =
  results_config :: SimulationConfig
  start_time :: datetime
  end_time :: datetime
  total_steps :: nat
  final_freelancers :: nat
  final_clients :: nat
  final_contracts :: nat
  final_transactions :: nat
  market_evolution :: "MarketSnapshot list"
  metrics :: 'r
  scenario_results :: "'r list"
  entities_freelancers :: "Freelancer list"
  entities_clients :: "Client list"
  entities_contracts :: "Contract list"
  entities_transactions :: "Transaction list"

fun all_scenario_results :: "('w, 'r) Scenario list \<Rightarrow> 'w world \<Rightarrow> error + 'r list" where
  "all_scenario_results [] w = Inr []"
| "all_scenario_results (scenario # rest) w =
     (case get_results scenario w of
        Inl err \<Rightarrow> Inl err
      | Inr r \<Rightarrow>
          (case all_scenario_results rest w of
             Inl err \<Rightarrow> Inl err
           | Inr rs \<Rightarrow> Inr (r # rs)))"

definition generate_results :: "('w, 'r) SimulationEngine \<Rightarrow> error + 'r SimulationResults" where
  "generate_results e =
     (case get_summary (metrics_collector e) (outside e) of
        Inl err \<Rightarrow> Inl err
      | Inr summary \<Rightarrow>
          (case all_scenario_results (scenarios e) (outside e) of
             Inl err \<Rightarrow> Inl err
           | Inr rs \<Rightarrow>
               Inr \<lparr>results_config = config e,
                    start_time = start_date (config e),
                    end_time = current_time e,
                    total_steps = length (market_snapshots e),
                    final_freelancers = length (freelancers e),
                    final_clients = length (clients e),
                    final_contracts = length (contracts e),
                    final_transactions = length (transactions e),
                    market_evolution = market_snapshots e,
                    metrics = summary,
                    scenario_results = rs,
                    entities_freelancers = map snd (freelancers e),
                    entities_clients = map snd (clients e),
                    entities_contracts = map snd (contracts e),
                    entities_transactions = transactions e\<rparr>))"

text \<open>
  \<open>run()\<close>: the results it returns and the engine it leaves, or the exception that
  ended it and the engine at that moment.
\<close>

definition run ::
  "('w, 'r) SimulationEngine
     \<Rightarrow> (error \<times> ('w, 'r) SimulationEngine) + ('r SimulationResults \<times> ('w, 'r) SimulationEngine)" where
  "run e =
     (case run_loop (initialize_population e) 0 of
        Inl x \<Rightarrow> Inl x
      | Inr (e', iteration) \<Rightarrow>
          (case generate_results e' of
             Inl err \<Rightarrow> Inl (err, e')
           | Inr results \<Rightarrow> Inr (results, e')))"


subsection \<open>Vocabulary of the statements\<close>

text \<open>
  \<open>same_frame e e'\<close>: the attributes that no callable is handed are the same in both
  states. \<open>log_extends P e e'\<close>: the history of \<open>e'\<close> is that of \<open>e\<close> followed by
  calls that all satisfy \<open>P\<close>. \<open>nothing_injected e\<close>: no behavioural model is set and
  no scenario is registered.
\<close>

definition same_frame :: "('w, 'r) SimulationEngine \<Rightarrow> ('w, 'r) SimulationEngine \<Rightarrow> bool" where
  "same_frame e e' \<longleftrightarrow>
     config e' = config e \<and> current_time e' = current_time e \<and>
     transactions e' = transactions e \<and> scenarios e' = scenarios e \<and>
     metrics_collector e' = metrics_collector e \<and>
     freelancer_behavior_model e' = freelancer_behavior_model e \<and>
     client_behavior_model e' = client_behavior_model e \<and>
     market_dynamics_model e' = market_dynamics_model e"

definition log_extends ::
  "(call \<Rightarrow> bool) \<Rightarrow> ('w, 'r) SimulationEngine \<Rightarrow> ('w, 'r) SimulationEngine \<Rightarrow> bool" where
  "log_extends P e e' \<longleftrightarrow> (\<exists>new. calls e' = calls e @ new \<and> list_all P new)"

definition nothing_injected :: "('w, 'r) SimulationEngine \<Rightarrow> bool" where
  "nothing_injected e \<longleftrightarrow>
     freelancer_behavior_model e = None \<and> client_behavior_model e = None \<and>
     market_dynamics_model e = None \<and> scenarios e = []"

text \<open>
  What the scenario phase calls when the scenarios at positions \<open>i\<close>, \<open>i + 1\<close>, ...
  answer the activity test with the given truth values.
\<close>

fun scenario_callees :: "nat \<Rightarrow> bool list \<Rightarrow> callee list" where
  "scenario_callees i [] = []"
| "scenario_callees i (a # as) =
     IsActive i # (if a then [Apply i] else []) @ scenario_callees (Suc i) as"

section \<open>Example inputs\<close>

text \<open>
  The configuration of the ten-day example: 2024-01-01 to 2024-01-10 in steps of one
  day, at most 1000 iterations, the dataclass defaults elsewhere.
\<close>

definition config_jan2024 :: SimulationConfig where
  "config_jan2024 =
     \<lparr>start_date = datetime_ymd 2024 1 1, end_date = datetime_ymd 2024 1 10,
      time_step = timedelta_days 1,
      initial_freelancers = 1000, initial_clients = 500,
      market_volatility = 1 / 10, regulatory_enforcement_level = 1 / 2,
      agent_interaction_probability = 1 / 10, contract_formation_rate = 1 / 20,
      base_hourly_rate = 50, inflation_rate = 3 / 100,
      sb988_enforcement_date = None, compliance_grace_period = 90,
      random_seed = None, max_iterations = 1000, convergence_threshold = 1 / 1000\<rparr>"

text \<open>A collector that keeps nothing, a process state, and the engine built from them.\<close>

definition null_collector :: "(unit, unit) MetricsCollector" where
  "null_collector =
     \<lparr>collect_step_metrics = (\<lambda>fs cs ks ts t w. Inr w), get_summary = (\<lambda>w. Inr ())\<rparr>"

definition world0 :: "unit world" where
  "world0 = \<lparr>np_random_state = Entropy 0, private_state = ()\<rparr>"

definition engine_jan2024 :: "(unit, unit) SimulationEngine" where
  "engine_jan2024 = SimulationEngine_init null_collector config_jan2024 world0"


text \<open>Two freelancers, a client, two contracts and two transactions.\<close>

definition freelancer_ann :: Freelancer where
  "freelancer_ann =
     \<lparr>Freelancer_id = ''f1'', Freelancer_name = ''Ann'', freelancer_type = CONSULTANT,
      skills = [''audit''], experience_years = 5, hourly_rate = 40,
      Freelancer_location = ''CA'', Freelancer_created_at = datetime_ymd 2023 6 1,
      sb988_aware = False, compliance_preference = ''neutral'', administrative_capacity = 1 / 2,
      annual_income = None, primary_client_dependency = 0,
      risk_tolerance = 1 / 2, negotiation_skill = 1 / 2, market_knowledge = 1 / 2\<rparr>"

definition freelancer_bob :: Freelancer where
  "freelancer_bob =
     freelancer_ann\<lparr>Freelancer_id := ''f2'', Freelancer_name := ''Bob'', hourly_rate := 60\<rparr>"

definition client_acme :: Client where
  "client_acme =
     \<lparr>Client_id = ''c1'', Client_name = ''Acme'', client_type = STARTUP,
      industry = ''software'', size_range = ''1-10'', Client_location = ''CA'',
      Client_created_at = datetime_ymd 2023 6 1,
      annual_revenue = None, freelancer_spend_budget = None,
      sb988_awareness = 1 / 2, compliance_priority = ''medium'', legal_resources = 1 / 2,
      risk_aversion = 1 / 2, negotiation_power = 1 / 2, market_influence = 1 / 2\<rparr>"

definition contract_jan05 :: Contract where
  "contract_jan05 =
     \<lparr>Contract_id = ''k1'', Contract_freelancer_id = ''f1'', Contract_client_id = ''c1'',
      title = ''Audit'', Contract_description = ''Year-end audit'',
      Contract_status = ACTIVE, Contract_created_at = datetime_ymd 2023 12 1,
      Contract_start_date = Some (date_ymd 2023 12 1),
      Contract_end_date = Some (date_ymd 2024 1 5),
      total_value = 1000, payment_terms = ''net_30'', currency = ''USD'',
      estimated_hours = None, actual_hours = None, deliverables = [], milestones = [],
      sb988_compliant = COMPLIANT, compliance_score = 0, compliance_requirements = [],
      administrative_burden_score = 0, exclusivity_clause = False,
      location_requirements = None, equipment_provided = False,
      supervision_level = ''minimal''\<rparr>"

definition contract_open :: Contract where
  "contract_open =
     contract_jan05\<lparr>Contract_id := ''k2'', Contract_end_date := None,
                    sb988_compliant := PENDING_REVIEW\<rparr>"

definition transaction_jan01 :: Transaction where
  "transaction_jan01 =
     \<lparr>Transaction_id = ''t1'', Transaction_contract_id = ''k1'',
      Transaction_freelancer_id = ''f1'', Transaction_client_id = ''c1'',
      amount = 100, transaction_date = datetime_ymd 2024 1 1 + 36000000000,
      payment_method = ''wire'', Transaction_status = ''completed'',
      compliance_costs = 0, administrative_overhead = 0, dispute_costs = 0,
      Transaction_description = None, reference_number = None\<rparr>"

definition transaction_jan02 :: Transaction where
  "transaction_jan02 =
     transaction_jan01\<lparr>Transaction_id := ''t2'', amount := 50,
                       transaction_date := datetime_ymd 2024 1 2\<rparr>"

definition engine_populated :: "(unit, unit) SimulationEngine" where
  "engine_populated =
     engine_jan2024\<lparr>freelancers := [(''f1'', freelancer_ann), (''f2'', freelancer_bob)],
                    clients := [(''c1'', client_acme)],
                    contracts := [(''k1'', contract_jan05), (''k2'', contract_open)],
                    transactions := [transaction_jan01, transaction_jan02]\<rparr>"

text \<open>
  Callables to inject: a market model that raises every hourly rate by one, a freelancer
  model that makes the freelancer aware of the regulation, a client model that changes
  nothing; a scenario that is always active and turns contracts under review into
  non-compliant ones, one that is active from July 2024 on, and one whose application
  raises.
\<close>

definition market_model_example :: "unit market_model" where
  "market_model_example fs cs ks t w =
     Inr (map (\<lambda>(k, f). (k, f\<lparr>hourly_rate := hourly_rate f + 1\<rparr>)) fs, cs, ks, w)"

definition freelancer_model_example :: "unit freelancer_model" where
  "freelancer_model_example f ms cs t w = Inr (f\<lparr>sb988_aware := True\<rparr>, ms, cs, w)"

definition client_model_example :: "unit client_model" where
  "client_model_example c ms fs t w = Inr (c, ms, fs, w)"

definition scenario_review :: "(unit, unit) Scenario" where
  "scenario_review =
     \<lparr>is_active = (\<lambda>t w. Inr (True, w)),
      scenario_apply = (\<lambda>fs cs ks t w.
        Inr (fs, cs,
             map (\<lambda>(k, c). (k, if sb988_compliant c = PENDING_REVIEW
                                 then c\<lparr>sb988_compliant := NON_COMPLIANT\<rparr> else c)) ks,
             w)),
      get_results = (\<lambda>w. Inr ())\<rparr>"

definition scenario_later :: "(unit, unit) Scenario" where
  "scenario_later =
     \<lparr>is_active = (\<lambda>t w. Inr (datetime_ymd 2024 7 1 \<le> t, w)),
      scenario_apply = (\<lambda>fs cs ks t w. Inr (fs, cs, ks, w)),
      get_results = (\<lambda>w. Inr ())\<rparr>"

definition scenario_failing :: "(unit, unit) Scenario" where
  "scenario_failing =
     \<lparr>is_active = (\<lambda>t w. Inr (True, w)),
      scenario_apply = (\<lambda>fs cs ks t w. Inl (Raised ''no enforcement data'', (fs, cs, ks, w))),
      get_results = (\<lambda>w. Inr ())\<rparr>"

definition engine_with_models :: "(unit, unit) SimulationEngine" where
  "engine_with_models =
     set_behavioral_models (Some freelancer_model_example) (Some client_model_example)
       (Some market_model_example)
       (add_scenario scenario_later (add_scenario scenario_review engine_populated))"

definition engine_failing :: "(unit, unit) SimulationEngine" where
  "engine_failing =
     add_scenario scenario_failing (engine_populated\<lparr>current_time := datetime_ymd 2024 1 6\<rparr>)"

text \<open>
  A market model that draws from \<open>np.random\<close>: the number drawn becomes every
  freelancer's hourly rate. The number is a function of the generator state, and the draw
  moves the generator on.
\<close>

fun rng_number :: "rng_state \<Rightarrow> real" where
  "rng_number (Entropy n) = real n"
| "rng_number (Seeded s) = real_of_int s"
| "rng_number (Drawn r) = rng_number r + 1"

definition market_model_random :: "unit market_model" where
  "market_model_random fs cs ks t w =
     Inr (map (\<lambda>(k, f). (k, f\<lparr>hourly_rate := rng_number (np_random_state w)\<rparr>)) fs, cs, ks,
          w\<lparr>np_random_state := Drawn (np_random_state w)\<rparr>)"

text \<open>
  A one-day simulation with \<open>random_seed = 0\<close>, built in a process whose generator is in
  the state \<open>Entropy n\<close>, then given one freelancer and the random market model.
\<close>

definition config_seed_zero :: SimulationConfig where
  "config_seed_zero =
     config_jan2024\<lparr>end_date := datetime_ymd 2024 1 1, random_seed := Some 0\<rparr>"

definition engine_seed_zero :: "nat \<Rightarrow> (unit, unit) SimulationEngine" where
  "engine_seed_zero n =
     set_behavioral_models None None (Some market_model_random)
       ((SimulationEngine_init null_collector config_seed_zero
           \<lparr>np_random_state = Entropy n, private_state = ()\<rparr>)
        \<lparr>freelancers := [(''f1'', freelancer_ann)]\<rparr>)"

section \<open>The convergence predicate\<close>








section \<open>Frames: what the phases leave alone\<close>

lemma state_of_simps [simp]:
  "state_of (Inl (err, s)) = s" "state_of (Inr s) = s"
  by (simp_all add: state_of_def)

lemma length_store_market_state [simp]:
  "length (store_market_state ms snaps) = length snaps"
  by (cases ms) (auto simp: store_market_state_def)

lemma store_market_state_empty [simp]: "store_market_state ms snaps = [] \<longleftrightarrow> snaps = []"
  by (cases ms) (auto simp: store_market_state_def)

lemma map_fst_store_values [simp]: "map fst (store_values vs kvs) = map fst kvs"
  by (induction vs kvs rule: store_values.induct) auto

lemma length_store_values [simp]: "length (store_values vs kvs) = length kvs"
  by (induction vs kvs rule: store_values.induct) auto

lemma same_frame_refl [simp]: "same_frame e e"
  by (simp add: same_frame_def)

lemma same_frame_trans: "same_frame a b \<Longrightarrow> same_frame b c \<Longrightarrow> same_frame a c"
  by (simp add: same_frame_def)

lemma freelancer_calls_frame:
  "same_frame e (state_of (freelancer_calls m i xs e)) \<and>
   contracts (state_of (freelancer_calls m i xs e)) = contracts e \<and>
   length (market_snapshots (state_of (freelancer_calls m i xs e))) = length (market_snapshots e) \<and>
   map fst (clients (state_of (freelancer_calls m i xs e))) = map fst (clients e) \<and>
   length (freelancers (state_of (freelancer_calls m i xs e))) = length (freelancers e)"
proof (induction xs arbitrary: i e)
  case Nil
  show ?case by simp
next
  case (Cons x xs)
  obtain k f where x: "x = (k, f)" by (cases x)
  show ?case
  proof (cases "m f (market_state e) (map snd (clients e)) (current_time e) (outside e)")
    case (Inl a)
    then show ?thesis
      by (cases a) (auto simp: x Let_def same_frame_def)
  next
    case (Inr b)
    obtain f' ms' cs' w' where b: "b = (f', ms', cs', w')" by (cases b)
    show ?thesis
      using Cons.IH [where i = "Suc i" and e =
          "e\<lparr>calls := calls e @ [Call_freelancer_behavior_model k (market_state_ref e) (current_time e)],
             freelancers := (freelancers e)[i := (k, f')],
             market_snapshots := store_market_state ms' (market_snapshots e),
             clients := store_values cs' (clients e), outside := w'\<rparr>"]
      by (simp add: x Inr b Let_def same_frame_def)
  qed
qed

lemma client_calls_frame:
  "same_frame e (state_of (client_calls m i xs e)) \<and>
   contracts (state_of (client_calls m i xs e)) = contracts e \<and>
   length (market_snapshots (state_of (client_calls m i xs e))) = length (market_snapshots e) \<and>
   map fst (freelancers (state_of (client_calls m i xs e))) = map fst (freelancers e) \<and>
   length (clients (state_of (client_calls m i xs e))) = length (clients e)"
proof (induction xs arbitrary: i e)
  case Nil
  show ?case by simp
next
  case (Cons x xs)
  obtain k c where x: "x = (k, c)" by (cases x)
  show ?case
  proof (cases "m c (market_state e) (map snd (freelancers e)) (current_time e) (outside e)")
    case (Inl a)
    then show ?thesis
      by (cases a) (auto simp: x Let_def same_frame_def)
  next
    case (Inr b)
    obtain c' ms' fs' w' where b: "b = (c', ms', fs', w')" by (cases b)
    show ?thesis
      using Cons.IH [where i = "Suc i" and e =
          "e\<lparr>calls := calls e @ [Call_client_behavior_model k (market_state_ref e) (current_time e)],
             clients := (clients e)[i := (k, c')],
             market_snapshots := store_market_state ms' (market_snapshots e),
             freelancers := store_values fs' (freelancers e), outside := w'\<rparr>"]
      by (simp add: x Inr b Let_def same_frame_def)
  qed
qed

lemma scenario_calls_frame:
  "same_frame e (state_of (scenario_calls i xs e)) \<and>
   market_snapshots (state_of (scenario_calls i xs e)) = market_snapshots e"
proof (induction xs arbitrary: i e)
  case Nil
  show ?case by simp
next
  case (Cons x xs)
  show ?case
  proof (cases "is_active x (current_time e) (outside e)")
    case (Inl a)
    then show ?thesis
      by (cases a) (auto simp: Let_def same_frame_def)
  next
    case (Inr b)
    obtain active w where b: "b = (active, w)" by (cases b)
    show ?thesis
    proof (cases active)
      case False
      then show ?thesis
        using Cons.IH [where i = "Suc i" and e =
            "e\<lparr>calls := calls e @ [Call_is_active i (current_time e)], outside := w\<rparr>"]
        by (simp add: Inr b Let_def same_frame_def)
    next
      case True
      show ?thesis
      proof (cases "scenario_apply x (freelancers e) (clients e) (contracts e) (current_time e) w")
        case (Inl a)
        then show ?thesis
          by (cases a) (auto simp: Inr b True Let_def same_frame_def store_population_def
              split: prod.splits)
      next
        case ap: (Inr p)
        show ?thesis
          using Cons.IH [where i = "Suc i" and e =
              "store_population p
                 (e\<lparr>calls := calls e @ [Call_is_active i (current_time e)],
                    calls := (calls e @ [Call_is_active i (current_time e)])
                             @ [Call_apply i (current_time e)]\<rparr>)"]
          by (simp add: Inr b True ap Let_def same_frame_def store_population_def
              split: prod.splits)
      qed
    qed
  qed
qed

lemma new_snapshot_append_snapshot [simp]: "new_snapshot (append_snapshot e) = new_snapshot e"
  by (simp add: new_snapshot_def append_snapshot_def calculate_average_hourly_rate_def
      calculate_compliance_rate_def)

lemma update_market_conditions_frame:
  "same_frame e (state_of (update_market_conditions e))"
  by (auto simp: update_market_conditions_def append_snapshot_def store_population_def
      same_frame_def Let_def split: option.splits sum.splits prod.splits)

lemma update_market_conditions_Inr:
  assumes "update_market_conditions e = Inr e1"
  shows "market_snapshots e1 = market_snapshots e @ [new_snapshot e1]"
    and "transactions e1 = transactions e" and "current_time e1 = current_time e"
  using assms
  by (auto simp: update_market_conditions_def append_snapshot_def store_population_def
      Let_def new_snapshot_def calculate_average_hourly_rate_def calculate_compliance_rate_def
      split: option.splits sum.splits prod.splits)

lemma update_market_conditions_Inl:
  assumes "update_market_conditions e = Inl (err, s)"
  shows "market_snapshots s = market_snapshots e"
  using assms
  by (auto simp: update_market_conditions_def append_snapshot_def store_population_def
      Let_def split: option.splits sum.splits prod.splits)

lemma execute_agent_behaviors_frame:
  "same_frame e (state_of (execute_agent_behaviors e)) \<and>
   contracts (state_of (execute_agent_behaviors e)) = contracts e \<and>
   length (market_snapshots (state_of (execute_agent_behaviors e))) = length (market_snapshots e)"
proof (cases "execute_freelancer_behaviors e")
  case (Inl a)
  obtain err s where a: "a = (err, s)" by (cases a)
  show ?thesis
  proof (cases "freelancer_behavior_model e")
    case None
    with Inl show ?thesis by (simp add: execute_freelancer_behaviors_def)
  next
    case (Some m)
    with Inl a have "freelancer_calls m 0 (freelancers e) e = Inl (err, s)"
      by (simp add: execute_freelancer_behaviors_def)
    with freelancer_calls_frame [of e m 0 "freelancers e"] show ?thesis
      by (simp add: execute_agent_behaviors_def and_then_def Inl a)
  qed
next
  case (Inr e1)
  have 1: "same_frame e e1 \<and> contracts e1 = contracts e \<and>
      length (market_snapshots e1) = length (market_snapshots e)"
  proof (cases "freelancer_behavior_model e")
    case None
    with Inr show ?thesis by (simp add: execute_freelancer_behaviors_def)
  next
    case (Some m)
    with Inr have "freelancer_calls m 0 (freelancers e) e = Inr e1"
      by (simp add: execute_freelancer_behaviors_def)
    with freelancer_calls_frame [of e m 0 "freelancers e"] show ?thesis by simp
  qed
  have 2: "same_frame e1 (state_of (execute_client_behaviors e1)) \<and>
      contracts (state_of (execute_client_behaviors e1)) = contracts e1 \<and>
      length (market_snapshots (state_of (execute_client_behaviors e1))) = length (market_snapshots e1)"
  proof (cases "client_behavior_model e1")
    case None
    then show ?thesis by (simp add: execute_client_behaviors_def)
  next
    case (Some m)
    with client_calls_frame [of e1 m 0 "clients e1"] show ?thesis
      by (simp add: execute_client_behaviors_def)
  qed
  from 1 2 show ?thesis
    by (auto simp: execute_agent_behaviors_def and_then_def Inr intro: same_frame_trans)
qed

lemma process_contracts_frame [simp]:
  "same_frame e (process_contracts e)" "market_snapshots (process_contracts e) = market_snapshots e"
  "calls (process_contracts e) = calls e" "current_time (process_contracts e) = current_time e"
  "scenarios (process_contracts e) = scenarios e"
  by (simp_all add: process_contracts_def same_frame_def)

lemma apply_regulatory_scenarios_frame:
  "same_frame e (state_of (apply_regulatory_scenarios e)) \<and>
   market_snapshots (state_of (apply_regulatory_scenarios e)) = market_snapshots e"
  using scenario_calls_frame [of e 0 "scenarios e"] by (simp add: apply_regulatory_scenarios_def)

lemma collect_metrics_frame:
  "same_frame e (state_of (collect_metrics e)) \<and>
   market_snapshots (state_of (collect_metrics e)) = market_snapshots e \<and>
   contracts (state_of (collect_metrics e)) = contracts e \<and>
   freelancers (state_of (collect_metrics e)) = freelancers e \<and>
   clients (state_of (collect_metrics e)) = clients e"
  by (auto simp: collect_metrics_def same_frame_def Let_def split: sum.splits prod.splits)

lemma advance_time_Inr:
  assumes "advance_time e = Inr e'"
  shows "e' = e\<lparr>current_time := current_time e + time_step (config e)\<rparr>"
  using assms by (auto simp: advance_time_def datetime_add_def split: if_splits)

lemma advance_time_state_of [simp]:
  "market_snapshots (state_of (advance_time e)) = market_snapshots e"
  "contracts (state_of (advance_time e)) = contracts e"
  "calls (state_of (advance_time e)) = calls e"
  "config (state_of (advance_time e)) = config e"
  by (auto simp: advance_time_def datetime_add_def split: if_splits)

lemma step_Inr_chain:
  assumes "step e = Inr e'"
  shows "\<exists>e1 e2 e4 e5.
    update_market_conditions e = Inr e1 \<and> execute_agent_behaviors e1 = Inr e2 \<and>
    apply_regulatory_scenarios (process_contracts e2) = Inr e4 \<and>
    collect_metrics e4 = Inr e5 \<and> advance_time e5 = Inr e'"
  using assms by (auto simp: step_def and_then_def split: sum.splits)

text \<open>What a step that returns has done to the fields no callable can reach.\<close>

lemma step_frame:
  assumes "step e = Inr e'"
  shows "config e' = config e"
    and "current_time e' = current_time e + time_step (config e)"
    and "length (market_snapshots e') = Suc (length (market_snapshots e))"
    and "scenarios e' = scenarios e"
    and "freelancer_behavior_model e' = freelancer_behavior_model e"
    and "client_behavior_model e' = client_behavior_model e"
    and "market_dynamics_model e' = market_dynamics_model e"
    and "metrics_collector e' = metrics_collector e"
    and "transactions e' = transactions e"
proof -
  from step_Inr_chain [OF assms] obtain e1 e2 e4 e5 where
    1: "update_market_conditions e = Inr e1" and 2: "execute_agent_behaviors e1 = Inr e2" and
    4: "apply_regulatory_scenarios (process_contracts e2) = Inr e4" and
    5: "collect_metrics e4 = Inr e5" and 6: "advance_time e5 = Inr e'"
    by blast
  from update_market_conditions_frame [of e] 1 have f1: "same_frame e e1" by simp
  from execute_agent_behaviors_frame [of e1] 2
  have f2: "same_frame e1 e2" "length (market_snapshots e2) = length (market_snapshots e1)"
    by simp_all
  from apply_regulatory_scenarios_frame [of "process_contracts e2"] 4
  have f4: "same_frame (process_contracts e2) e4" "market_snapshots e4 = market_snapshots e2"
    by simp_all
  from collect_metrics_frame [of e4] 5
  have f5: "same_frame e4 e5" "market_snapshots e5 = market_snapshots e4" by simp_all
  have f3: "same_frame e2 (process_contracts e2)" by simp
  from f1 f2(1) f3 f4(1) f5(1) have f: "same_frame e e5"
    by (blast intro: same_frame_trans)
  from update_market_conditions_Inr(1) [OF 1]
  have "length (market_snapshots e1) = Suc (length (market_snapshots e))" by simp
  with f2(2) f4(2) f5(2) have len: "length (market_snapshots e5) = Suc (length (market_snapshots e))"
    by simp
  note e' = advance_time_Inr [OF 6]
  from f e' show "config e' = config e" by (simp add: same_frame_def)
  from f e' show "current_time e' = current_time e + time_step (config e)"
    by (simp add: same_frame_def)
  from len e' show "length (market_snapshots e') = Suc (length (market_snapshots e))" by simp
  from f e' show "scenarios e' = scenarios e" by (simp add: same_frame_def)
  from f e' show "freelancer_behavior_model e' = freelancer_behavior_model e"
    by (simp add: same_frame_def)
  from f e' show "client_behavior_model e' = client_behavior_model e"
    by (simp add: same_frame_def)
  from f e' show "market_dynamics_model e' = market_dynamics_model e"
    by (simp add: same_frame_def)
  from f e' show "metrics_collector e' = metrics_collector e" by (simp add: same_frame_def)
  from f e' show "transactions e' = transactions e" by (simp add: same_frame_def)
qed

lemma state_of_and_then:
  "state_of (and_then r f) = (case r of Inl (err, s) \<Rightarrow> s | Inr s \<Rightarrow> state_of (f s))"
  by (auto simp: and_then_def state_of_def split: sum.splits)

lemma step_nothing_injected:
  assumes "nothing_injected e"
  shows "step e = and_then (collect_metrics (process_contracts (append_snapshot e))) advance_time"
  using assms
  by (simp add: nothing_injected_def step_def and_then_def update_market_conditions_def
      execute_agent_behaviors_def execute_freelancer_behaviors_def execute_client_behaviors_def
      apply_regulatory_scenarios_def process_contracts_def append_snapshot_def)

lemma step_nothing_injected_state:
  assumes "nothing_injected e"
  shows "market_snapshots (state_of (step e)) = market_snapshots e @ [new_snapshot e]"
    and "contracts (state_of (step e)) = contracts (process_contracts e)"
    and "nothing_injected (state_of (step e))"
proof -
  let ?e3 = "process_contracts (append_snapshot e)"
  have c: "contracts ?e3 = contracts (process_contracts e)"
    "market_snapshots ?e3 = market_snapshots e @ [new_snapshot e]"
    "nothing_injected ?e3"
    using assms by (simp_all add: process_contracts_def append_snapshot_def nothing_injected_def)
  have s: "state_of (step e) = (case collect_metrics ?e3 of Inl (err, s) \<Rightarrow> s
      | Inr s \<Rightarrow> state_of (advance_time s))"
    by (simp add: step_nothing_injected [OF assms] state_of_and_then)
  show "market_snapshots (state_of (step e)) = market_snapshots e @ [new_snapshot e]"
    using collect_metrics_frame [of ?e3] c
    by (auto simp: s split: sum.splits)
  show "contracts (state_of (step e)) = contracts (process_contracts e)"
    using collect_metrics_frame [of ?e3] c
    by (auto simp: s split: sum.splits)
  show "nothing_injected (state_of (step e))"
    using collect_metrics_frame [of ?e3] c
    by (auto simp: s same_frame_def nothing_injected_def advance_time_def split: sum.splits)
qed

section \<open>Evaluating the examples\<close>

lemmas date_defs = date_of_def datetime_ymd_def date_ymd_def days_before_year_def
  days_before_month_def is_leap_def microseconds_per_day_def timedelta_days_def datetime_max_def

lemmas engine_defs = engine_with_models_def engine_failing_def engine_populated_def
  set_behavioral_models_def add_scenario_def

lemmas phase_defs = step_def and_then_def update_market_conditions_def append_snapshot_def
  store_population_def execute_agent_behaviors_def execute_freelancer_behaviors_def
  execute_client_behaviors_def process_contracts_def apply_regulatory_scenarios_def
  collect_metrics_def advance_time_def datetime_add_def market_state_def market_state_ref_def
  store_market_state_def Let_def

lemmas example_defs = market_model_example_def freelancer_model_example_def
  client_model_example_def scenario_review_def scenario_later_def scenario_failing_def
  null_collector_def config_jan2024_def

lemma engine_jan2024_fields [simp]:
  "config engine_jan2024 = config_jan2024" "current_time engine_jan2024 = datetime_ymd 2024 1 1"
  "freelancers engine_jan2024 = []" "clients engine_jan2024 = []" "contracts engine_jan2024 = []"
  "transactions engine_jan2024 = []" "market_snapshots engine_jan2024 = []"
  "metrics_collector engine_jan2024 = null_collector" "scenarios engine_jan2024 = []"
  "freelancer_behavior_model engine_jan2024 = None" "client_behavior_model engine_jan2024 = None"
  "market_dynamics_model engine_jan2024 = None" "outside engine_jan2024 = world0"
  "calls engine_jan2024 = []"
  by (simp_all add: engine_jan2024_def SimulationEngine_init_def config_jan2024_def)

lemma engine_populated_injected: "nothing_injected engine_populated"
  by (simp add: nothing_injected_def engine_populated_def)

lemma map_all_equal: "\<forall>x \<in> set xs. f x = k \<Longrightarrow> map f xs = replicate (length xs) k"
  by (induction xs) simp_all

lemma step_engine_jan2024: "step engine_jan2024 = Inr (state_of (step engine_jan2024))"
  by (simp add: phase_defs example_defs date_defs)

lemma step_engine_with_models: "step engine_with_models = Inr (state_of (step engine_with_models))"
  by (simp add: engine_defs phase_defs example_defs date_defs)

lemma step_engine_failing:
  "step engine_failing = Inl (Raised ''no enforcement data'', state_of (step engine_failing))"
  by (simp add: engine_defs phase_defs example_defs date_defs)

section \<open>Market snapshots\<close>

lemma compliant_value [simp]:
  "ComplianceStatus_value s = ''compliant'' \<longleftrightarrow> s = COMPLIANT"
  by (cases s) simp_all

lemma active_value [simp]:
  "ContractStatus_value s = ''active'' \<longleftrightarrow> s = ACTIVE"
  by (cases s) simp_all

text \<open>
  C5. With no scenario and no behavioural model, a call of step, whether it returns or
  raises, leaves exactly one more market snapshot. Its compliance rate is 0 for an empty
  contract mapping and the share of contracts with compliant status otherwise; its
  average hourly rate is 0 for an empty freelancer mapping and the arithmetic mean of
  the freelancers' hourly rates otherwise.
\<close>

theorem step_appends_one_snapshot:
  assumes "nothing_injected e"
  shows "market_snapshots (state_of (step e)) = market_snapshots e @ [new_snapshot e] \<and>
    compliance_rate (new_snapshot e) =
      (if contracts e = [] then 0
       else real (length (filter (\<lambda>(k, c). sb988_compliant c = COMPLIANT) (contracts e)))
              / real (length (contracts e))) \<and>
    average_hourly_rate (new_snapshot e) =
      (if freelancers e = [] then 0
       else sum_list (map (\<lambda>(k, f). hourly_rate f) (freelancers e))
              / real (length (freelancers e)))"
proof (intro conjI)
  show "market_snapshots (state_of (step e)) = market_snapshots e @ [new_snapshot e]"
    by (rule step_nothing_injected_state(1) [OF assms])
  show "compliance_rate (new_snapshot e) =
      (if contracts e = [] then 0
       else real (length (filter (\<lambda>(k, c). sb988_compliant c = COMPLIANT) (contracts e)))
              / real (length (contracts e)))"
    by (simp add: new_snapshot_def calculate_compliance_rate_def)
  show "average_hourly_rate (new_snapshot e) =
      (if freelancers e = [] then 0
       else sum_list (map (\<lambda>(k, f). hourly_rate f) (freelancers e))
              / real (length (freelancers e)))"
    by (simp add: new_snapshot_def calculate_average_hourly_rate_def np_mean_def)
qed

theorem step_appends_one_snapshot_witness:
  "nothing_injected engine_populated \<and>
   market_snapshots (state_of (step engine_populated)) = [new_snapshot engine_populated] \<and>
   compliance_rate (new_snapshot engine_populated) = 1 / 2 \<and>
   average_hourly_rate (new_snapshot engine_populated) = 50 \<and>
   nothing_injected engine_jan2024 \<and>
   compliance_rate (new_snapshot engine_jan2024) = 0 \<and>
   average_hourly_rate (new_snapshot engine_jan2024) = 0"
proof -
  have i0: "nothing_injected engine_jan2024" by (simp add: nothing_injected_def)
  have c: "contracts engine_populated = [(''k1'', contract_jan05), (''k2'', contract_open)]"
    and f: "freelancers engine_populated = [(''f1'', freelancer_ann), (''f2'', freelancer_bob)]"
    and s: "market_snapshots engine_populated = []"
    by (simp_all add: engine_populated_def)
  from step_appends_one_snapshot [OF engine_populated_injected]
  have "market_snapshots (state_of (step engine_populated)) = [new_snapshot engine_populated]"
    and "compliance_rate (new_snapshot engine_populated) = 1 / 2"
    and "average_hourly_rate (new_snapshot engine_populated) = 50"
    by (simp_all add: c f s contract_jan05_def contract_open_def freelancer_ann_def
        freelancer_bob_def)
  moreover from step_appends_one_snapshot [OF i0]
  have "compliance_rate (new_snapshot engine_jan2024) = 0"
    and "average_hourly_rate (new_snapshot engine_jan2024) = 0"
    by simp_all
  ultimately show ?thesis using engine_populated_injected i0 by simp
qed

text \<open>
  C6. The snapshot that phase 1 appends carries, as its total transaction volume, the sum
  of the amounts of the transactions in the log whose date is the date of the current
  time: a transaction counts with its amount if its date matches and with nothing if it
  does not. With nothing injected, this is the snapshot a step leaves at the end of the
  list.
\<close>

theorem snapshot_transaction_volume:
  "(update_market_conditions e = Inr e1 \<longrightarrow>
      market_snapshots e1 = market_snapshots e @ [new_snapshot e1] \<and>
      total_transaction_volume (new_snapshot e1) =
        sum_list (map amount
          (filter (\<lambda>t. date_of (transaction_date t) = date_of (current_time e)) (transactions e))) \<and>
      total_transaction_volume (new_snapshot e1) =
        (\<Sum>t\<leftarrow>transactions e.
           if date_of (transaction_date t) = date_of (current_time e) then amount t else 0)) \<and>
   (nothing_injected e \<longrightarrow>
      total_transaction_volume (last (market_snapshots (state_of (step e)))) =
        sum_list (map amount
          (filter (\<lambda>t. date_of (transaction_date t) = date_of (current_time e)) (transactions e))))"
proof (intro conjI impI)
  assume u: "update_market_conditions e = Inr e1"
  note u' = update_market_conditions_Inr [OF u]
  show "market_snapshots e1 = market_snapshots e @ [new_snapshot e1]" by (rule u'(1))
  show vol: "total_transaction_volume (new_snapshot e1) =
      sum_list (map amount
        (filter (\<lambda>t. date_of (transaction_date t) = date_of (current_time e)) (transactions e)))"
    by (simp add: new_snapshot_def u')
  have "sum_list (map amount (filter P ts)) = (\<Sum>t\<leftarrow>ts. if P t then amount t else 0)"
    for P and ts :: "Transaction list"
    by (induction ts) simp_all
  with vol show "total_transaction_volume (new_snapshot e1) =
      (\<Sum>t\<leftarrow>transactions e.
         if date_of (transaction_date t) = date_of (current_time e) then amount t else 0)"
    by simp
next
  assume "nothing_injected e"
  from step_nothing_injected_state(1) [OF this]
  show "total_transaction_volume (last (market_snapshots (state_of (step e)))) =
      sum_list (map amount
        (filter (\<lambda>t. date_of (transaction_date t) = date_of (current_time e)) (transactions e)))"
    by (simp add: new_snapshot_def)
qed

theorem snapshot_transaction_volume_witness:
  "update_market_conditions engine_populated = Inr (append_snapshot engine_populated) \<and>
   market_snapshots (append_snapshot engine_populated) = [new_snapshot engine_populated] \<and>
   total_transaction_volume (new_snapshot engine_populated) = 100 \<and>
   total_transaction_volume (last (market_snapshots (state_of (step engine_populated)))) = 100"
proof -
  have u: "update_market_conditions engine_populated = Inr (append_snapshot engine_populated)"
    by (simp add: update_market_conditions_def engine_populated_def)
  have t: "transactions engine_populated = [transaction_jan01, transaction_jan02]"
    and n: "current_time engine_populated = datetime_ymd 2024 1 1"
    and s: "market_snapshots engine_populated = []"
    by (simp_all add: engine_populated_def)
  from snapshot_transaction_volume [THEN conjunct1, THEN mp, OF u]
  have "market_snapshots (append_snapshot engine_populated) = [new_snapshot engine_populated]"
    and "total_transaction_volume (new_snapshot engine_populated) = 100"
    by (simp_all add: t n s transaction_jan01_def transaction_jan02_def date_defs)
  moreover from snapshot_transaction_volume [THEN conjunct2, THEN mp, OF engine_populated_injected]
  have "total_transaction_volume (last (market_snapshots (state_of (step engine_populated)))) = 100"
    by (simp add: t n transaction_jan01_def transaction_jan02_def date_defs)
  ultimately show ?thesis using u by (intro conjI)
qed

section \<open>Contract lifecycle\<close>

lemma process_contract_completed:
  "Contract_status c = COMPLETED \<Longrightarrow> process_contract now c = c"
  by (simp add: process_contract_def split: option.splits)

lemma process_contracts_nth:
  assumes "j < length (contracts e)"
  shows "contracts (process_contracts e) ! j =
    (fst (contracts e ! j), process_contract (current_time e) (snd (contracts e ! j)))"
  using assms by (simp add: process_contracts_def case_prod_beta)

lemma length_process_contracts [simp]:
  "length (contracts (process_contracts e)) = length (contracts e)"
  by (simp add: process_contracts_def)

lemma steps_nothing_injected_completed:
  assumes "nothing_injected e" and "j < length (contracts e)"
    and "Contract_status (snd (contracts e ! j)) = COMPLETED"
  shows "length (contracts (state_of (steps n e))) = length (contracts e) \<and>
    contracts (state_of (steps n e)) ! j = contracts e ! j"
  using assms
proof (induction n arbitrary: e)
  case 0
  show ?case by simp
next
  case (Suc n)
  have one: "contracts (state_of (step e)) = contracts (process_contracts e)"
    and inj: "nothing_injected (state_of (step e))"
    using step_nothing_injected_state [OF Suc.prems(1)] by simp_all
  have same: "contracts (process_contracts e) ! j = contracts e ! j"
    using Suc.prems(2,3)
    by (simp add: process_contracts_nth process_contract_completed)
  show ?case
  proof (cases "step e")
    case (Inl a)
    obtain err s where a: "a = (err, s)" by (cases a)
    from one same Inl a show ?thesis by (simp add: and_then_def)
  next
    case (Inr e1)
    with one inj same Suc.prems have "nothing_injected e1" "j < length (contracts e1)"
      "Contract_status (snd (contracts e1 ! j)) = COMPLETED"
      by simp_all
    from Suc.IH [OF this] Inr one same show ?thesis by (simp add: and_then_def)
  qed
qed

text \<open>
  C4. Phase 3 turns a contract into COMPLETED exactly when it is ACTIVE and has an end
  date strictly before the date of the current time, and leaves every other contract
  as it is. With no scenario and no behavioural model this is all a step does to the
  contracts, and a contract that is COMPLETED is the same contract after any number of
  further steps.
\<close>

theorem contract_lifecycle:
  "(j < length (contracts e) \<and> contracts e ! j = (k, c) \<and> Contract_status c = ACTIVE \<and>
      Contract_end_date c = Some d \<and> d < date_of (current_time e) \<longrightarrow>
        contracts (process_contracts e) ! j = (k, c\<lparr>Contract_status := COMPLETED\<rparr>)) \<and>
   (j < length (contracts e) \<and> contracts e ! j = (k, c) \<and>
      \<not> (Contract_status c = ACTIVE \<and>
           (\<exists>d. Contract_end_date c = Some d \<and> d < date_of (current_time e))) \<longrightarrow>
        contracts (process_contracts e) ! j = (k, c)) \<and>
   length (contracts (process_contracts e)) = length (contracts e) \<and>
   (nothing_injected e \<longrightarrow> contracts (state_of (step e)) = contracts (process_contracts e)) \<and>
   (nothing_injected e \<and> j < length (contracts e) \<and> contracts e ! j = (k, c) \<and>
      Contract_status c = COMPLETED \<longrightarrow>
        length (contracts (state_of (steps n e))) = length (contracts e) \<and>
        contracts (state_of (steps n e)) ! j = (k, c))"
proof (intro conjI impI)
  assume h: "j < length (contracts e) \<and> contracts e ! j = (k, c) \<and> Contract_status c = ACTIVE \<and>
      Contract_end_date c = Some d \<and> d < date_of (current_time e)"
  then show "contracts (process_contracts e) ! j = (k, c\<lparr>Contract_status := COMPLETED\<rparr>)"
    by (simp add: process_contracts_nth process_contract_def)
next
  assume h: "j < length (contracts e) \<and> contracts e ! j = (k, c) \<and>
      \<not> (Contract_status c = ACTIVE \<and>
           (\<exists>d. Contract_end_date c = Some d \<and> d < date_of (current_time e)))"
  then show "contracts (process_contracts e) ! j = (k, c)"
    by (auto simp: process_contracts_nth process_contract_def split: option.splits)
next
  show "length (contracts (process_contracts e)) = length (contracts e)" by simp
next
  assume "nothing_injected e"
  then show "contracts (state_of (step e)) = contracts (process_contracts e)"
    by (rule step_nothing_injected_state(2))
next
  assume h: "nothing_injected e \<and> j < length (contracts e) \<and> contracts e ! j = (k, c) \<and>
      Contract_status c = COMPLETED"
  then have "Contract_status (snd (contracts e ! j)) = COMPLETED" by simp
  with h have "length (contracts (state_of (steps n e))) = length (contracts e) \<and>
    contracts (state_of (steps n e)) ! j = contracts e ! j"
    by (intro steps_nothing_injected_completed) simp_all
  with h show "length (contracts (state_of (steps n e))) = length (contracts e)"
    and "contracts (state_of (steps n e)) ! j = (k, c)" by simp_all
qed

theorem contract_lifecycle_witness:
  "contracts (process_contracts (engine_populated\<lparr>current_time := datetime_ymd 2024 1 6\<rparr>)) ! 0
     = (''k1'', contract_jan05\<lparr>Contract_status := COMPLETED\<rparr>) \<and>
   contracts (process_contracts (engine_populated\<lparr>current_time := datetime_ymd 2024 1 6\<rparr>)) ! 1
     = (''k2'', contract_open) \<and>
   contracts (process_contracts (engine_populated\<lparr>current_time := datetime_ymd 2024 1 5\<rparr>)) ! 0
     = (''k1'', contract_jan05) \<and>
   contracts (state_of (step (engine_populated\<lparr>current_time := datetime_ymd 2024 1 6\<rparr>))) ! 0
     = (''k1'', contract_jan05\<lparr>Contract_status := COMPLETED\<rparr>) \<and>
   contracts (state_of (steps 7
      (engine_populated\<lparr>contracts := [(''k1'', contract_jan05\<lparr>Contract_status := COMPLETED\<rparr>)]\<rparr>))) ! 0
     = (''k1'', contract_jan05\<lparr>Contract_status := COMPLETED\<rparr>)"
proof -
  let ?e6 = "engine_populated\<lparr>current_time := datetime_ymd 2024 1 6\<rparr>"
  let ?e5 = "engine_populated\<lparr>current_time := datetime_ymd 2024 1 5\<rparr>"
  let ?done = "contract_jan05\<lparr>Contract_status := COMPLETED\<rparr>"
  let ?ec = "engine_populated\<lparr>contracts := [(''k1'', ?done)]\<rparr>"
  have h1: "0 < length (contracts ?e6) \<and> contracts ?e6 ! 0 = (''k1'', contract_jan05) \<and>
      Contract_status contract_jan05 = ACTIVE \<and>
      Contract_end_date contract_jan05 = Some (date_ymd 2024 1 5) \<and>
      date_ymd 2024 1 5 < date_of (current_time ?e6)"
    by (simp add: engine_populated_def contract_jan05_def date_defs)
  have h2: "1 < length (contracts ?e6) \<and> contracts ?e6 ! 1 = (''k2'', contract_open) \<and>
      \<not> (Contract_status contract_open = ACTIVE \<and>
           (\<exists>d. Contract_end_date contract_open = Some d \<and> d < date_of (current_time ?e6)))"
    by (simp add: engine_populated_def contract_open_def contract_jan05_def)
  have h3: "0 < length (contracts ?e5) \<and> contracts ?e5 ! 0 = (''k1'', contract_jan05) \<and>
      \<not> (Contract_status contract_jan05 = ACTIVE \<and>
           (\<exists>d. Contract_end_date contract_jan05 = Some d \<and> d < date_of (current_time ?e5)))"
    by (simp add: engine_populated_def contract_jan05_def date_defs)
  have h4: "nothing_injected ?e6"
    by (simp add: nothing_injected_def engine_populated_def)
  have h5: "nothing_injected ?ec \<and> 0 < length (contracts ?ec) \<and>
      contracts ?ec ! 0 = (''k1'', ?done) \<and> Contract_status ?done = COMPLETED"
    by (simp add: nothing_injected_def engine_populated_def)
  from contract_lifecycle [of 0 ?e6 "''k1''" contract_jan05 "date_ymd 2024 1 5" 0] h1
  have c1: "contracts (process_contracts ?e6) ! 0 = (''k1'', ?done)" by blast
  from contract_lifecycle [of 1 ?e6 "''k2''" contract_open 0 0] h2
  have c2: "contracts (process_contracts ?e6) ! 1 = (''k2'', contract_open)" by blast
  from contract_lifecycle [of 0 ?e5 "''k1''" contract_jan05 0 0] h3
  have c3: "contracts (process_contracts ?e5) ! 0 = (''k1'', contract_jan05)" by blast
  from contract_lifecycle [of 0 ?e6 "''k1''" contract_jan05 0 0] h4
  have "contracts (state_of (step ?e6)) = contracts (process_contracts ?e6)" by blast
  with c1 have c4: "contracts (state_of (step ?e6)) ! 0 = (''k1'', ?done)" by simp
  from contract_lifecycle [of 0 ?ec "''k1''" ?done 0 7] h5
  have c5: "contracts (state_of (steps 7 ?ec)) ! 0 = (''k1'', ?done)" by blast
  from c1 c2 c3 c4 c5 show ?thesis by blast
qed

section \<open>The calls of a step\<close>

lemma log_extends_refl [simp]: "log_extends P e e"
  by (simp add: log_extends_def)

lemma log_extends_trans:
  "log_extends P a b \<Longrightarrow> log_extends P b c \<Longrightarrow> log_extends P a c"
  by (auto simp: log_extends_def)

lemma log_extends_weaken:
  "log_extends P a b \<Longrightarrow> (\<And>c. P c \<Longrightarrow> Q c) \<Longrightarrow> log_extends Q a b"
  by (auto simp: log_extends_def list_all_iff)

lemma log_extends_calls:
  "calls b = calls a @ new \<Longrightarrow> list_all P new \<Longrightarrow> log_extends P a b"
  by (auto simp: log_extends_def)

lemma log_extends_cong_calls:
  "calls a = calls a' \<Longrightarrow> calls b = calls b' \<Longrightarrow> log_extends P a b = log_extends P a' b'"
  by (simp add: log_extends_def)

lemma freelancer_calls_log:
  assumes "current_time e = t" and "length (market_snapshots e) = Suc n"
  shows "log_extends (\<lambda>c. call_time c = t \<and> agent_call c \<and>
            (\<exists>s. market_state_arg c = Some (n, s)))
          e (state_of (freelancer_calls m i xs e))"
  using assms
proof (induction xs arbitrary: i e)
  case Nil
  show ?case by simp
next
  case (Cons x xs)
  let ?P = "\<lambda>c. call_time c = t \<and> agent_call c \<and> (\<exists>s. market_state_arg c = Some (n, s))"
  obtain k f where x: "x = (k, f)" by (cases x)
  let ?c = "Call_freelancer_behavior_model k (market_state_ref e) (current_time e)"
  from Cons.prems have ne: "market_snapshots e \<noteq> []" by auto
  with Cons.prems have Pc: "?P ?c" by (simp add: market_state_ref_def)
  show ?case
  proof (cases "m f (market_state e) (map snd (clients e)) (current_time e) (outside e)")
    case (Inl a)
    obtain err f' ms' cs' w' where a: "a = (err, f', ms', cs', w')" by (cases a) auto
    have "calls (state_of (freelancer_calls m i (x # xs) e)) = calls e @ [?c]"
      by (simp add: x Inl a Let_def)
    with Pc show ?thesis by (intro log_extends_calls [where new = "[?c]"]) simp_all
  next
    case (Inr b)
    obtain f' ms' cs' w' where b: "b = (f', ms', cs', w')" by (cases b)
    let ?e1 = "e\<lparr>calls := calls e @ [?c],
             freelancers := (freelancers e)[i := (k, f')],
             market_snapshots := store_market_state ms' (market_snapshots e),
             clients := store_values cs' (clients e), outside := w'\<rparr>"
    have 1: "log_extends ?P e ?e1"
      using Pc by (intro log_extends_calls [where new = "[?c]"]) simp_all
    have "log_extends ?P ?e1 (state_of (freelancer_calls m (Suc i) xs ?e1))"
      using Cons.prems by (intro Cons.IH) simp_all
    with 1 have "log_extends ?P e (state_of (freelancer_calls m (Suc i) xs ?e1))"
      by (rule log_extends_trans)
    then show ?thesis by (simp add: x Inr b Let_def)
  qed
qed

lemma client_calls_log:
  assumes "current_time e = t" and "length (market_snapshots e) = Suc n"
  shows "log_extends (\<lambda>c. call_time c = t \<and> agent_call c \<and>
            (\<exists>s. market_state_arg c = Some (n, s)))
          e (state_of (client_calls m i xs e))"
  using assms
proof (induction xs arbitrary: i e)
  case Nil
  show ?case by simp
next
  case (Cons x xs)
  let ?P = "\<lambda>c. call_time c = t \<and> agent_call c \<and> (\<exists>s. market_state_arg c = Some (n, s))"
  obtain k f where x: "x = (k, f)" by (cases x)
  let ?c = "Call_client_behavior_model k (market_state_ref e) (current_time e)"
  from Cons.prems have ne: "market_snapshots e \<noteq> []" by auto
  with Cons.prems have Pc: "?P ?c" by (simp add: market_state_ref_def)
  show ?case
  proof (cases "m f (market_state e) (map snd (freelancers e)) (current_time e) (outside e)")
    case (Inl a)
    obtain err f' ms' cs' w' where a: "a = (err, f', ms', cs', w')" by (cases a) auto
    have "calls (state_of (client_calls m i (x # xs) e)) = calls e @ [?c]"
      by (simp add: x Inl a Let_def)
    with Pc show ?thesis by (intro log_extends_calls [where new = "[?c]"]) simp_all
  next
    case (Inr b)
    obtain f' ms' cs' w' where b: "b = (f', ms', cs', w')" by (cases b)
    let ?e1 = "e\<lparr>calls := calls e @ [?c],
             clients := (clients e)[i := (k, f')],
             market_snapshots := store_market_state ms' (market_snapshots e),
             freelancers := store_values cs' (freelancers e), outside := w'\<rparr>"
    have 1: "log_extends ?P e ?e1"
      using Pc by (intro log_extends_calls [where new = "[?c]"]) simp_all
    have "log_extends ?P ?e1 (state_of (client_calls m (Suc i) xs ?e1))"
      using Cons.prems by (intro Cons.IH) simp_all
    with 1 have "log_extends ?P e (state_of (client_calls m (Suc i) xs ?e1))"
      by (rule log_extends_trans)
    then show ?thesis by (simp add: x Inr b Let_def)
  qed
qed

lemma scenario_calls_log:
  assumes "current_time e = t"
  shows "log_extends (\<lambda>c. call_time c = t \<and> \<not> agent_call c) e (state_of (scenario_calls i xs e))"
  using assms
proof (induction xs arbitrary: i e)
  case Nil
  show ?case by simp
next
  case (Cons x xs)
  let ?P = "\<lambda>c. call_time c = t \<and> \<not> agent_call c"
  let ?c = "Call_is_active i (current_time e)"
  let ?a = "Call_apply i (current_time e)"
  let ?e1 = "e\<lparr>calls := calls e @ [?c]\<rparr>"
  have 1: "log_extends ?P e (?e1\<lparr>outside := w\<rparr>)" for w
    using Cons.prems by (intro log_extends_calls [where new = "[?c]"]) simp_all
  have 2: "log_extends ?P e (store_population p (?e1\<lparr>calls := calls ?e1 @ [?a]\<rparr>))" for p
    using Cons.prems
    by (intro log_extends_calls [where new = "[?c, ?a]"])
      (simp_all add: store_population_def split: prod.splits)
  show ?case
  proof (cases "is_active x (current_time e) (outside e)")
    case (Inl a)
    obtain err w where a: "a = (err, w)" by (cases a)
    from 1 [of w] show ?thesis by (simp add: Inl a Let_def)
  next
    case (Inr b)
    obtain active w where b: "b = (active, w)" by (cases b)
    show ?thesis
    proof (cases active)
      case False
      have "log_extends ?P (?e1\<lparr>outside := w\<rparr>)
          (state_of (scenario_calls (Suc i) xs (?e1\<lparr>outside := w\<rparr>)))"
        using Cons.prems by (intro Cons.IH) simp
      with 1 [of w] have "log_extends ?P e (state_of (scenario_calls (Suc i) xs (?e1\<lparr>outside := w\<rparr>)))"
        by (rule log_extends_trans)
      with False show ?thesis by (simp add: Inr b Let_def)
    next
      case True
      show ?thesis
      proof (cases "scenario_apply x (freelancers e) (clients e) (contracts e) (current_time e) w")
        case (Inl a)
        obtain err p where a: "a = (err, p)" by (cases a)
        from 2 [of p] show ?thesis by (simp add: Inr b True Inl a Let_def)
      next
        case ap: (Inr p)
        let ?e2 = "store_population p (?e1\<lparr>calls := calls ?e1 @ [?a]\<rparr>)"
        have "current_time ?e2 = t"
          using Cons.prems by (simp add: store_population_def split: prod.splits)
        then have "log_extends ?P ?e2 (state_of (scenario_calls (Suc i) xs ?e2))"
          by (rule Cons.IH)
        with 2 [of p] have "log_extends ?P e (state_of (scenario_calls (Suc i) xs ?e2))"
          by (rule log_extends_trans)
        then show ?thesis by (simp add: Inr b True ap Let_def)
      qed
    qed
  qed
qed

lemma update_market_conditions_log:
  "log_extends (\<lambda>c. call_time c = current_time e \<and> \<not> agent_call c) e
     (state_of (update_market_conditions e))"
proof (cases "market_dynamics_model e")
  case None
  then show ?thesis
    by (simp add: update_market_conditions_def append_snapshot_def log_extends_def)
next
  case (Some m)
  let ?c = "Call_market_dynamics_model (current_time e)"
  have "calls (state_of (update_market_conditions e)) = calls e @ [?c]"
    by (auto simp: update_market_conditions_def Some Let_def append_snapshot_def
        store_population_def split: sum.splits prod.splits)
  then show ?thesis by (rule log_extends_calls) simp
qed

lemma execute_agent_behaviors_log:
  assumes "current_time e = t" and "length (market_snapshots e) = Suc n"
  shows "log_extends (\<lambda>c. call_time c = t \<and> agent_call c \<and>
            (\<exists>s. market_state_arg c = Some (n, s)))
          e (state_of (execute_agent_behaviors e))"
proof -
  let ?P = "\<lambda>c. call_time c = t \<and> agent_call c \<and> (\<exists>s. market_state_arg c = Some (n, s))"
  have 1: "log_extends ?P e (state_of (execute_freelancer_behaviors e))"
  proof (cases "freelancer_behavior_model e")
    case None
    then show ?thesis by (simp add: execute_freelancer_behaviors_def)
  next
    case (Some m)
    with freelancer_calls_log [OF assms, of m 0 "freelancers e"] show ?thesis
      by (simp add: execute_freelancer_behaviors_def)
  qed
  show ?thesis
  proof (cases "execute_freelancer_behaviors e")
    case (Inl a)
    obtain err s where a: "a = (err, s)" by (cases a)
    from 1 show ?thesis by (simp add: execute_agent_behaviors_def and_then_def Inl a)
  next
    case (Inr e1)
    have f: "current_time e1 = t \<and> length (market_snapshots e1) = Suc n"
    proof (cases "freelancer_behavior_model e")
      case None
      with Inr assms show ?thesis by (simp add: execute_freelancer_behaviors_def)
    next
      case (Some m)
      with Inr have "freelancer_calls m 0 (freelancers e) e = Inr e1"
        by (simp add: execute_freelancer_behaviors_def)
      with freelancer_calls_frame [of e m 0 "freelancers e"] assms show ?thesis
        by (simp add: same_frame_def)
    qed
    have 2: "log_extends ?P e1 (state_of (execute_client_behaviors e1))"
    proof (cases "client_behavior_model e1")
      case None
      then show ?thesis by (simp add: execute_client_behaviors_def)
    next
      case (Some m)
      from f have "current_time e1 = t" "length (market_snapshots e1) = Suc n" by simp_all
      from client_calls_log [OF this, of m 0 "clients e1"] Some show ?thesis
        by (simp add: execute_client_behaviors_def)
    qed
    from 1 Inr have "log_extends ?P e e1" by simp
    from log_extends_trans [OF this 2] show ?thesis
      by (simp add: execute_agent_behaviors_def and_then_def Inr)
  qed
qed

lemma apply_regulatory_scenarios_log:
  "log_extends (\<lambda>c. call_time c = current_time e \<and> \<not> agent_call c) e
     (state_of (apply_regulatory_scenarios e))"
  using scenario_calls_log [of e "current_time e" 0 "scenarios e"]
  by (simp add: apply_regulatory_scenarios_def)

lemma collect_metrics_log:
  "log_extends (\<lambda>c. call_time c = current_time e \<and> \<not> agent_call c) e
     (state_of (collect_metrics e))"
proof -
  let ?c = "Call_collect_step_metrics (current_time e)"
  have "calls (state_of (collect_metrics e)) = calls e @ [?c]"
    by (auto simp: collect_metrics_def Let_def split: sum.splits prod.splits)
  then show ?thesis by (rule log_extends_calls) simp
qed

text \<open>
  The history of one step, returned or raised: every call carries the time at which the
  step began, and every call of a behavioural model carries the snapshot object that
  phase 1 of this step put at the end of the list.
\<close>

lemma step_log:
  "log_extends (\<lambda>c. call_time c = current_time e \<and>
       (agent_call c \<longrightarrow> (\<exists>s. market_state_arg c = Some (length (market_snapshots e), s))))
     e (state_of (step e))"
proof -
  let ?t = "current_time e" and ?n = "length (market_snapshots e)"
  let ?P = "\<lambda>c. call_time c = ?t \<and> (agent_call c \<longrightarrow> (\<exists>s. market_state_arg c = Some (?n, s)))"
  have L1: "log_extends ?P e (state_of (update_market_conditions e))"
    by (rule log_extends_weaken [OF update_market_conditions_log]) simp
  show ?thesis
  proof (cases "update_market_conditions e")
    case (Inl a)
    obtain err s where a: "a = (err, s)" by (cases a)
    from L1 show ?thesis by (simp add: step_def and_then_def Inl a)
  next
    case u: (Inr e1)
    from update_market_conditions_frame [of e] u have f1: "same_frame e e1" by simp
    then have t1: "current_time e1 = ?t" by (simp add: same_frame_def)
    from update_market_conditions_Inr(1) [OF u]
    have n1: "length (market_snapshots e1) = Suc ?n" by simp
    from L1 u have A1: "log_extends ?P e e1" by simp
    have L2: "log_extends ?P e1 (state_of (execute_agent_behaviors e1))"
      by (rule log_extends_weaken [OF execute_agent_behaviors_log [OF t1 n1]]) simp
    show ?thesis
    proof (cases "execute_agent_behaviors e1")
      case (Inl a)
      obtain err s where a: "a = (err, s)" by (cases a)
      from log_extends_trans [OF A1 L2] show ?thesis
        by (simp add: step_def and_then_def u Inl a)
    next
      case b: (Inr e2)
      from execute_agent_behaviors_frame [of e1] b have f2: "same_frame e1 e2" by simp
      with t1 have t2: "current_time e2 = ?t"
        by (simp add: same_frame_def)
      from log_extends_trans [OF A1 L2] b have A2: "log_extends ?P e (process_contracts e2)"
        by (simp add: log_extends_def)
      have L4: "log_extends ?P (process_contracts e2)
          (state_of (apply_regulatory_scenarios (process_contracts e2)))"
        by (rule log_extends_weaken [OF apply_regulatory_scenarios_log]) (simp add: t2)
      show ?thesis
      proof (cases "apply_regulatory_scenarios (process_contracts e2)")
        case (Inl a)
        obtain err s where a: "a = (err, s)" by (cases a)
        from log_extends_trans [OF A2 L4] show ?thesis
          by (simp add: step_def and_then_def u b Inl a)
      next
        case r: (Inr e4)
        from apply_regulatory_scenarios_frame [of "process_contracts e2"] r t2
        have t4: "current_time e4 = ?t" by (simp add: same_frame_def)
        from log_extends_trans [OF A2 L4] r have A4: "log_extends ?P e e4" by simp
        have L5: "log_extends ?P e4 (state_of (collect_metrics e4))"
          by (rule log_extends_weaken [OF collect_metrics_log]) (simp add: t4)
        show ?thesis
        proof (cases "collect_metrics e4")
          case (Inl a)
          obtain err s where a: "a = (err, s)" by (cases a)
          from log_extends_trans [OF A4 L5] show ?thesis
            by (simp add: step_def and_then_def u b r Inl a)
        next
          case c: (Inr e5)
          from log_extends_trans [OF A4 L5] c have "log_extends ?P e e5" by simp
          then have "log_extends ?P e (state_of (advance_time e5))"
            by (simp add: log_extends_def)
          then show ?thesis by (simp add: step_def and_then_def u b r c)
        qed
      qed
    qed
  qed
qed

lemma freelancer_calls_callees:
  assumes "freelancer_calls m i xs e = Inr e'"
  shows "map callee_of (calls e') =
    map callee_of (calls e) @ map (\<lambda>(k, f). FreelancerBehaviorModel k) xs"
  using assms
proof (induction xs arbitrary: i e)
  case Nil
  then show ?case by simp
next
  case (Cons x xs)
  obtain k f where x: "x = (k, f)" by (cases x)
  from Cons.prems obtain f' ms' cs' w' where
    r: "m f (market_state e) (map snd (clients e)) (current_time e) (outside e)
          = Inr (f', ms', cs', w')"
    by (auto simp: x Let_def split: sum.splits prod.splits)
  let ?e1 = "e\<lparr>calls := calls e @ [Call_freelancer_behavior_model k (market_state_ref e) (current_time e)],
             freelancers := (freelancers e)[i := (k, f')],
             market_snapshots := store_market_state ms' (market_snapshots e),
             clients := store_values cs' (clients e), outside := w'\<rparr>"
  from Cons.prems r have "freelancer_calls m (Suc i) xs ?e1 = Inr e'"
    by (simp add: x Let_def)
  from Cons.IH [OF this] show ?case by (simp add: x)
qed

lemma client_calls_callees:
  assumes "client_calls m i xs e = Inr e'"
  shows "map callee_of (calls e') =
    map callee_of (calls e) @ map (\<lambda>(k, c). ClientBehaviorModel k) xs"
  using assms
proof (induction xs arbitrary: i e)
  case Nil
  then show ?case by simp
next
  case (Cons x xs)
  obtain k c where x: "x = (k, c)" by (cases x)
  from Cons.prems obtain c' ms' fs' w' where
    r: "m c (market_state e) (map snd (freelancers e)) (current_time e) (outside e)
          = Inr (c', ms', fs', w')"
    by (auto simp: x Let_def split: sum.splits prod.splits)
  let ?e1 = "e\<lparr>calls := calls e @ [Call_client_behavior_model k (market_state_ref e) (current_time e)],
             clients := (clients e)[i := (k, c')],
             market_snapshots := store_market_state ms' (market_snapshots e),
             freelancers := store_values fs' (freelancers e), outside := w'\<rparr>"
  from Cons.prems r have "client_calls m (Suc i) xs ?e1 = Inr e'"
    by (simp add: x Let_def)
  from Cons.IH [OF this] show ?case by (simp add: x)
qed

lemma scenario_calls_callees:
  assumes "scenario_calls i xs e = Inr e'"
  shows "\<exists>answers. length answers = length xs \<and>
    map callee_of (calls e') = map callee_of (calls e) @ scenario_callees i answers"
  using assms
proof (induction xs arbitrary: i e)
  case Nil
  then show ?case by simp
next
  case (Cons x xs)
  from Cons.prems obtain active w where
    a: "is_active x (current_time e) (outside e) = Inr (active, w)"
    by (auto simp: Let_def split: sum.splits prod.splits)
  let ?e1 = "e\<lparr>calls := calls e @ [Call_is_active i (current_time e)]\<rparr>"
  show ?case
  proof (cases active)
    case False
    with Cons.prems a have "scenario_calls (Suc i) xs (?e1\<lparr>outside := w\<rparr>) = Inr e'"
      by (simp add: Let_def)
    from Cons.IH [OF this] obtain answers where
      "length answers = length xs"
      "map callee_of (calls e') =
         map callee_of (calls (?e1\<lparr>outside := w\<rparr>)) @ scenario_callees (Suc i) answers"
      by blast
    then have "length (False # answers) = length (x # xs) \<and>
      map callee_of (calls e') = map callee_of (calls e) @ scenario_callees i (False # answers)"
      by simp
    then show ?thesis by blast
  next
    case True
    with Cons.prems a obtain p where
      p: "scenario_apply x (freelancers e) (clients e) (contracts e) (current_time e) w = Inr p"
      by (auto simp: Let_def split: sum.splits prod.splits)
    let ?e2 = "store_population p (?e1\<lparr>calls := calls ?e1 @ [Call_apply i (current_time e)]\<rparr>)"
    from Cons.prems a True p have "scenario_calls (Suc i) xs ?e2 = Inr e'"
      by (simp add: Let_def)
    from Cons.IH [OF this] obtain answers where
      "length answers = length xs"
      "map callee_of (calls e') = map callee_of (calls ?e2) @ scenario_callees (Suc i) answers"
      by blast
    then have "length (True # answers) = length (x # xs) \<and>
      map callee_of (calls e') = map callee_of (calls e) @ scenario_callees i (True # answers)"
      by (simp add: store_population_def split: prod.splits)
    then show ?thesis by blast
  qed
qed

lemma update_market_conditions_callees:
  assumes "update_market_conditions e = Inr e1"
  shows "map callee_of (calls e1) = map callee_of (calls e) @
    (case market_dynamics_model e of None \<Rightarrow> [] | Some m \<Rightarrow> [MarketDynamicsModel])"
  using assms
  by (auto simp: update_market_conditions_def append_snapshot_def store_population_def Let_def
      split: option.splits sum.splits prod.splits)

lemma execute_agent_behaviors_callees:
  assumes "execute_agent_behaviors e = Inr e2"
  shows "map callee_of (calls e2) = map callee_of (calls e) @
    (case freelancer_behavior_model e of None \<Rightarrow> []
     | Some m \<Rightarrow> map (\<lambda>(k, f). FreelancerBehaviorModel k) (freelancers e)) @
    (case client_behavior_model e of None \<Rightarrow> []
     | Some m \<Rightarrow> map (\<lambda>(k, c). ClientBehaviorModel k) (clients e))"
proof -
  from assms obtain em where
    1: "execute_freelancer_behaviors e = Inr em" and 2: "execute_client_behaviors em = Inr e2"
    by (auto simp: execute_agent_behaviors_def and_then_def split: sum.splits)
  have a: "map callee_of (calls em) = map callee_of (calls e) @
      (case freelancer_behavior_model e of None \<Rightarrow> []
       | Some m \<Rightarrow> map (\<lambda>(k, f). FreelancerBehaviorModel k) (freelancers e))"
    and k: "map fst (clients em) = map fst (clients e)"
    and cm: "client_behavior_model em = client_behavior_model e"
  proof -
    show "map callee_of (calls em) = map callee_of (calls e) @
      (case freelancer_behavior_model e of None \<Rightarrow> []
       | Some m \<Rightarrow> map (\<lambda>(k, f). FreelancerBehaviorModel k) (freelancers e))"
      using 1 by (auto simp: execute_freelancer_behaviors_def split: option.splits
          dest: freelancer_calls_callees)
    show "map fst (clients em) = map fst (clients e)"
    proof (cases "freelancer_behavior_model e")
      case None
      with 1 show ?thesis by (simp add: execute_freelancer_behaviors_def)
    next
      case (Some m)
      with 1 freelancer_calls_frame [of e m 0 "freelancers e"] show ?thesis
        by (simp add: execute_freelancer_behaviors_def)
    qed
    show "client_behavior_model em = client_behavior_model e"
    proof (cases "freelancer_behavior_model e")
      case None
      with 1 show ?thesis by (simp add: execute_freelancer_behaviors_def)
    next
      case (Some m)
      with 1 freelancer_calls_frame [of e m 0 "freelancers e"] show ?thesis
        by (simp add: execute_freelancer_behaviors_def same_frame_def)
    qed
  qed
  have keys: "map (\<lambda>(k, c). ClientBehaviorModel k) xs = map ClientBehaviorModel (map fst xs)"
    for xs :: "(string \<times> Client) list"
    by (induction xs) auto
  have b: "map callee_of (calls e2) = map callee_of (calls em) @
      (case client_behavior_model em of None \<Rightarrow> []
       | Some m \<Rightarrow> map (\<lambda>(k, c). ClientBehaviorModel k) (clients em))"
    using 2 by (auto simp: execute_client_behaviors_def split: option.splits
        dest: client_calls_callees)
  from a b cm k show ?thesis by (simp add: keys split: option.splits)
qed

lemma collect_metrics_callees:
  assumes "collect_metrics e = Inr e5"
  shows "map callee_of (calls e5) = map callee_of (calls e) @ [CollectStepMetrics]"
  using assms by (auto simp: collect_metrics_def Let_def split: sum.splits prod.splits)

text \<open>
  C1. A step that returns has gone through the six phases in order, each from the state
  the one before left: the market conditions with the new snapshot, the behavioural
  models, the contract lifecycle, the scenarios, the metrics, the clock. Its calls are, in
  this order: the market-dynamics model if one is set; the freelancer model once for every
  freelancer, in dictionary order; the client model once for every client; for every
  scenario in registration order the activity test, followed by the application if the
  test said yes; the metrics collector, once. All of them carry the time at which the step
  began, and the step ends with the time advanced by the configured time step. In the
  scenario loop a scenario whose test says no is passed over and one whose test says yes
  is applied, once, before the next scenario is looked at.
\<close>

theorem step_phases:
  "(step e = Inr e' \<longrightarrow>
     (\<exists>e1 e2 e4 e5 answers.
        update_market_conditions e = Inr e1 \<and>
        market_snapshots e1 = market_snapshots e @ [new_snapshot e1] \<and>
        execute_agent_behaviors e1 = Inr e2 \<and>
        apply_regulatory_scenarios (process_contracts e2) = Inr e4 \<and>
        collect_metrics e4 = Inr e5 \<and>
        e' = e5\<lparr>current_time := current_time e + time_step (config e)\<rparr> \<and>
        length answers = length (scenarios e) \<and>
        map callee_of (calls e') = map callee_of (calls e) @
          (case market_dynamics_model e of None \<Rightarrow> [] | Some m \<Rightarrow> [MarketDynamicsModel]) @
          (case freelancer_behavior_model e of None \<Rightarrow> []
           | Some m \<Rightarrow> map (\<lambda>(k, f). FreelancerBehaviorModel k) (freelancers e1)) @
          (case client_behavior_model e of None \<Rightarrow> []
           | Some m \<Rightarrow> map (\<lambda>(k, c). ClientBehaviorModel k) (clients e1)) @
          scenario_callees 0 answers @ [CollectStepMetrics] \<and>
        log_extends (\<lambda>c. call_time c = current_time e) e e')) \<and>
   (is_active scenario (current_time e) (outside e) = Inr (False, w) \<longrightarrow>
      scenario_calls i (scenario # rest) e =
        scenario_calls (Suc i) rest
          (e\<lparr>calls := calls e @ [Call_is_active i (current_time e)], outside := w\<rparr>)) \<and>
   (is_active scenario (current_time e) (outside e) = Inr (True, w) \<and>
    scenario_apply scenario (freelancers e) (clients e) (contracts e) (current_time e) w = Inr p \<longrightarrow>
      scenario_calls i (scenario # rest) e =
        scenario_calls (Suc i) rest
          (store_population p
             (e\<lparr>calls := calls e @ [Call_is_active i (current_time e),
                                     Call_apply i (current_time e)]\<rparr>)))"
proof (intro conjI impI)
  assume st: "step e = Inr e'"
  from step_Inr_chain [OF st] obtain e1 e2 e4 e5 where
    1: "update_market_conditions e = Inr e1" and 2: "execute_agent_behaviors e1 = Inr e2" and
    4: "apply_regulatory_scenarios (process_contracts e2) = Inr e4" and
    5: "collect_metrics e4 = Inr e5" and 6: "advance_time e5 = Inr e'"
    by blast
  from update_market_conditions_frame [of e] 1 have f1: "same_frame e e1" by simp
  from execute_agent_behaviors_frame [of e1] 2 have f2: "same_frame e1 e2" by simp
  from apply_regulatory_scenarios_frame [of "process_contracts e2"] 4
  have f4: "same_frame (process_contracts e2) e4" by simp
  from collect_metrics_frame [of e4] 5 have f5: "same_frame e4 e5" by simp
  have f3: "same_frame e2 (process_contracts e2)" by simp
  from f1 f2 f3 f4 f5 have f: "same_frame e e5" by (blast intro: same_frame_trans)
  from advance_time_Inr [OF 6] f
  have e': "e' = e5\<lparr>current_time := current_time e + time_step (config e)\<rparr>"
    by (simp add: same_frame_def)
  from 4 obtain answers where
    len: "length answers = length (scenarios (process_contracts e2))" and
    c4: "map callee_of (calls e4) =
      map callee_of (calls (process_contracts e2)) @ scenario_callees 0 answers"
    unfolding apply_regulatory_scenarios_def by (blast dest: scenario_calls_callees)
  from f1 f2 have sc: "scenarios e2 = scenarios e" by (simp add: same_frame_def)
  from f1 have m1: "freelancer_behavior_model e1 = freelancer_behavior_model e"
    "client_behavior_model e1 = client_behavior_model e" by (simp_all add: same_frame_def)
  have callees: "map callee_of (calls e') = map callee_of (calls e) @
      (case market_dynamics_model e of None \<Rightarrow> [] | Some m \<Rightarrow> [MarketDynamicsModel]) @
      (case freelancer_behavior_model e of None \<Rightarrow> []
       | Some m \<Rightarrow> map (\<lambda>(k, f). FreelancerBehaviorModel k) (freelancers e1)) @
      (case client_behavior_model e of None \<Rightarrow> []
       | Some m \<Rightarrow> map (\<lambda>(k, c). ClientBehaviorModel k) (clients e1)) @
      scenario_callees 0 answers @ [CollectStepMetrics]"
    using update_market_conditions_callees [OF 1] execute_agent_behaviors_callees [OF 2]
      c4 collect_metrics_callees [OF 5] m1
    by (simp add: e')
  from step_log [of e] st have "log_extends (\<lambda>c. call_time c = current_time e) e e'"
    by (auto elim: log_extends_weaken)
  with 1 2 4 5 e' len sc callees update_market_conditions_Inr(1) [OF 1]
  show "\<exists>e1 e2 e4 e5 answers.
        update_market_conditions e = Inr e1 \<and>
        market_snapshots e1 = market_snapshots e @ [new_snapshot e1] \<and>
        execute_agent_behaviors e1 = Inr e2 \<and>
        apply_regulatory_scenarios (process_contracts e2) = Inr e4 \<and>
        collect_metrics e4 = Inr e5 \<and>
        e' = e5\<lparr>current_time := current_time e + time_step (config e)\<rparr> \<and>
        length answers = length (scenarios e) \<and>
        map callee_of (calls e') = map callee_of (calls e) @
          (case market_dynamics_model e of None \<Rightarrow> [] | Some m \<Rightarrow> [MarketDynamicsModel]) @
          (case freelancer_behavior_model e of None \<Rightarrow> []
           | Some m \<Rightarrow> map (\<lambda>(k, f). FreelancerBehaviorModel k) (freelancers e1)) @
          (case client_behavior_model e of None \<Rightarrow> []
           | Some m \<Rightarrow> map (\<lambda>(k, c). ClientBehaviorModel k) (clients e1)) @
          scenario_callees 0 answers @ [CollectStepMetrics] \<and>
        log_extends (\<lambda>c. call_time c = current_time e) e e'"
    by (intro exI [of _ e1] exI [of _ e2] exI [of _ e4] exI [of _ e5] exI [of _ answers]) simp
next
  assume "is_active scenario (current_time e) (outside e) = Inr (False, w)"
  then show "scenario_calls i (scenario # rest) e =
        scenario_calls (Suc i) rest
          (e\<lparr>calls := calls e @ [Call_is_active i (current_time e)], outside := w\<rparr>)"
    by (simp add: Let_def)
next
  assume "is_active scenario (current_time e) (outside e) = Inr (True, w) \<and>
    scenario_apply scenario (freelancers e) (clients e) (contracts e) (current_time e) w = Inr p"
  then show "scenario_calls i (scenario # rest) e =
        scenario_calls (Suc i) rest
          (store_population p
             (e\<lparr>calls := calls e @ [Call_is_active i (current_time e),
                                     Call_apply i (current_time e)]\<rparr>))"
    by (simp add: Let_def)
qed

lemma callees_engine_with_models:
  "map callee_of (calls (state_of (step engine_with_models))) =
     [MarketDynamicsModel, FreelancerBehaviorModel ''f1'', FreelancerBehaviorModel ''f2'',
      ClientBehaviorModel ''c1'', IsActive 0, Apply 0, IsActive 1, CollectStepMetrics]"
  by (simp add: engine_defs phase_defs example_defs date_defs)

theorem step_phases_witness:
  "step engine_with_models = Inr (state_of (step engine_with_models)) \<and>
   map callee_of (calls (state_of (step engine_with_models))) =
     [MarketDynamicsModel, FreelancerBehaviorModel ''f1'', FreelancerBehaviorModel ''f2'',
      ClientBehaviorModel ''c1'', IsActive 0, Apply 0, IsActive 1, CollectStepMetrics] \<and>
   current_time (state_of (step engine_with_models)) = datetime_ymd 2024 1 2 \<and>
   map call_time (calls (state_of (step engine_with_models))) = replicate 8 (datetime_ymd 2024 1 1) \<and>
   scenario_calls 0 [scenario_later] engine_populated =
     Inr (engine_populated\<lparr>calls := [Call_is_active 0 (datetime_ymd 2024 1 1)], outside := world0\<rparr>) \<and>
   map callee_of (calls (state_of (scenario_calls 0 [scenario_review] engine_populated))) =
     [IsActive 0, Apply 0]"
proof -
  have ep: "current_time engine_populated = datetime_ymd 2024 1 1"
    "outside engine_populated = world0" "calls engine_populated = []"
    by (simp_all add: engine_populated_def)
  have "is_active scenario_later (current_time engine_populated) (outside engine_populated)
      = Inr (False, world0)"
    by (simp add: ep scenario_later_def date_defs)
  from step_phases [THEN conjunct2, THEN conjunct1, THEN mp, OF this, of 0 "[]"]
  have later: "scenario_calls 0 [scenario_later] engine_populated =
     Inr (engine_populated\<lparr>calls := [Call_is_active 0 (datetime_ymd 2024 1 1)], outside := world0\<rparr>)"
    by (simp add: ep)
  let ?p = "(freelancers engine_populated, clients engine_populated,
      map (\<lambda>(k, c). (k, if sb988_compliant c = PENDING_REVIEW
                           then c\<lparr>sb988_compliant := NON_COMPLIANT\<rparr> else c))
        (contracts engine_populated), world0)"
  have "is_active scenario_review (current_time engine_populated) (outside engine_populated)
      = Inr (True, world0) \<and>
    scenario_apply scenario_review (freelancers engine_populated) (clients engine_populated)
      (contracts engine_populated) (current_time engine_populated) world0 = Inr ?p"
    by (simp add: ep scenario_review_def)
  from step_phases [THEN conjunct2, THEN conjunct2, THEN mp, OF this, of 0 "[]"]
  have review: "map callee_of (calls (state_of (scenario_calls 0 [scenario_review] engine_populated))) =
     [IsActive 0, Apply 0]"
    by (simp add: ep store_population_def)
  let ?e' = "state_of (step engine_with_models)"
  have t: "current_time engine_with_models = datetime_ymd 2024 1 1"
    and d: "time_step (config engine_with_models) = timedelta_days 1"
    and c: "calls engine_with_models = []"
    by (simp_all add: engine_defs config_jan2024_def)
  from step_phases [THEN conjunct1, THEN mp, OF step_engine_with_models] obtain e5 where
    e': "?e' = e5\<lparr>current_time := current_time engine_with_models
                                    + time_step (config engine_with_models)\<rparr>"
    and log: "log_extends (\<lambda>c. call_time c = current_time engine_with_models)
                engine_with_models ?e'"
    by blast
  from e' have "current_time ?e' = datetime_ymd 2024 1 1 + timedelta_days 1"
    using arg_cong [OF e', of current_time] t d by simp
  then have time: "current_time ?e' = datetime_ymd 2024 1 2" by (simp add: date_defs)
  from log c t have "\<forall>x \<in> set (calls ?e'). call_time x = datetime_ymd 2024 1 1"
    by (auto simp: log_extends_def list_all_iff)
  then have "map call_time (calls ?e') = replicate (length (calls ?e')) (datetime_ymd 2024 1 1)"
    by (rule map_all_equal)
  moreover have "length (calls ?e') = 8"
    using arg_cong [OF callees_engine_with_models, of length] by simp
  ultimately have times: "map call_time (calls ?e') = replicate 8 (datetime_ymd 2024 1 1)"
    by simp
  from step_engine_with_models callees_engine_with_models time times later review show ?thesis
    by (intro conjI)
qed

text \<open>
  C10. Whatever a step does, each call it makes to the freelancer-behaviour or the
  client-behaviour model passes a market state that is not None: it is the snapshot
  object at the position where phase 1 of this step appended its snapshot. The branch
  that passes None is never taken inside a step.
\<close>

theorem behaviors_receive_snapshot:
  "(\<exists>new. calls (state_of (step e)) = calls e @ new \<and>
      (\<forall>c \<in> set new. agent_call c \<longrightarrow>
         market_state_arg c \<noteq> None \<and>
         (\<exists>s. market_state_arg c = Some (length (market_snapshots e), s)))) \<and>
   (update_market_conditions e = Inr e1 \<longrightarrow>
      length (market_snapshots e1) = Suc (length (market_snapshots e)) \<and>
      market_snapshots e1 ! length (market_snapshots e) = new_snapshot e1)"
proof (intro conjI impI)
  from step_log [of e] obtain new where
    new: "calls (state_of (step e)) = calls e @ new"
    and all: "\<forall>c \<in> set new. call_time c = current_time e \<and>
       (agent_call c \<longrightarrow> (\<exists>s. market_state_arg c = Some (length (market_snapshots e), s)))"
    by (auto simp: log_extends_def list_all_iff)
  from all have "\<forall>c \<in> set new. agent_call c \<longrightarrow>
        market_state_arg c \<noteq> None \<and>
        (\<exists>s. market_state_arg c = Some (length (market_snapshots e), s))"
    by fastforce
  with new show "\<exists>new. calls (state_of (step e)) = calls e @ new \<and>
      (\<forall>c \<in> set new. agent_call c \<longrightarrow>
         market_state_arg c \<noteq> None \<and>
         (\<exists>s. market_state_arg c = Some (length (market_snapshots e), s)))"
    by blast
next
  assume "update_market_conditions e = Inr e1"
  from update_market_conditions_Inr(1) [OF this]
  show "length (market_snapshots e1) = Suc (length (market_snapshots e))"
    and "market_snapshots e1 ! length (market_snapshots e) = new_snapshot e1"
    by simp_all
qed

lemma agent_calls_engine_with_models:
  "map callee_of (filter agent_call (calls (state_of (step engine_with_models)))) =
     [FreelancerBehaviorModel ''f1'', FreelancerBehaviorModel ''f2'', ClientBehaviorModel ''c1'']"
  by (simp add: engine_defs phase_defs example_defs date_defs)

theorem behaviors_receive_snapshot_witness:
  "map callee_of (filter agent_call (calls (state_of (step engine_with_models)))) =
     [FreelancerBehaviorModel ''f1'', FreelancerBehaviorModel ''f2'', ClientBehaviorModel ''c1''] \<and>
   map (map_option fst \<circ> market_state_arg)
       (filter agent_call (calls (state_of (step engine_with_models)))) =
     [Some 0, Some 0, Some 0] \<and>
   market_snapshots (append_snapshot engine_populated) ! 0 = new_snapshot engine_populated"
proof -
  have u: "update_market_conditions engine_populated = Inr (append_snapshot engine_populated)"
    by (simp add: update_market_conditions_def engine_populated_def)
  have "market_snapshots engine_populated = []" by (simp add: engine_populated_def)
  with behaviors_receive_snapshot [THEN conjunct2, THEN mp, OF u]
  have slot: "market_snapshots (append_snapshot engine_populated) ! 0 = new_snapshot engine_populated"
    by simp
  let ?e' = "state_of (step engine_with_models)"
  have c: "calls engine_with_models = []" and s: "market_snapshots engine_with_models = []"
    by (simp_all add: engine_defs)
  from behaviors_receive_snapshot [THEN conjunct1, of engine_with_models] c s
  have "\<forall>x \<in> set (calls ?e'). agent_call x \<longrightarrow> (\<exists>s. market_state_arg x = Some (0, s))"
    by auto
  then have "\<forall>x \<in> set (filter agent_call (calls ?e')).
      (map_option fst \<circ> market_state_arg) x = Some 0"
    by auto
  then have "map (map_option fst \<circ> market_state_arg) (filter agent_call (calls ?e')) =
      replicate (length (filter agent_call (calls ?e'))) (Some 0)"
    by (rule map_all_equal)
  moreover have "length (filter agent_call (calls ?e')) = 3"
    using arg_cong [OF agent_calls_engine_with_models, of length] by simp
  ultimately have "map (map_option fst \<circ> market_state_arg) (filter agent_call (calls ?e')) =
      [Some 0, Some 0, Some 0]"
    by (simp add: numeral_3_eq_3)
  with agent_calls_engine_with_models slot show ?thesis by (intro conjI)
qed

section \<open>The run\<close>

lemma run_loop_continue:
  assumes "current_time e \<le> end_date (config e) \<and> i < max_iterations (config e)"
    and "step e = Inr e1" and "\<not> check_convergence e1"
  shows "run_loop e i = run_loop e1 (i + 1)"
  using assms by (subst run_loop.simps) simp

lemma run_loop_fixed_count:
  fixes e :: "('w, 'r) SimulationEngine"
  assumes "time_step (config e) = d" and "end_date (config e) = s + 9 * d" and "0 < d"
    and "10 \<le> max_iterations (config e)"
    and "current_time e = s + int j * d" and "length (market_snapshots e) = j" and "j \<le> 10"
    and "run_loop e (int j) = Inr (e', n)"
  shows "n = 10 \<and> current_time e' = s + 10 * d \<and> length (market_snapshots e') = 10 \<and>
    config e' = config e"
  using assms
proof (induction "10 - j" arbitrary: e j)
  case 0
  then have j: "j = 10" by simp
  with "0.prems" have "\<not> current_time e \<le> end_date (config e)" by simp
  with "0.prems" j show ?case by (simp add: run_loop.simps [of e])
next
  case (Suc m)
  then have j: "j < 10" by simp
  then have "int j * d \<le> 9 * d" using Suc.prems(3) by (intro mult_right_mono) simp_all
  with Suc.prems j have guard:
    "current_time e \<le> end_date (config e) \<and> int j < max_iterations (config e)"
    by simp
  show ?case
  proof (cases "step e")
    case (Inl x)
    with guard Suc.prems(8) show ?thesis by (simp add: run_loop.simps [of e])
  next
    case (Inr e1)
    note f = step_frame [OF Inr]
    have t1: "current_time e1 = s + int (Suc j) * d"
      using f(2) Suc.prems(1,5) by (simp add: algebra_simps)
    have l1: "length (market_snapshots e1) = Suc j" using f(3) Suc.prems(6) by simp
    show ?thesis
    proof (cases "check_convergence e1")
      case True
      then have "10 \<le> length (market_snapshots e1)"
        by (auto simp: check_convergence_def split: if_splits)
      with l1 j have j9: "j = 9" by simp
      from guard Inr True Suc.prems(8) have "e' = e1" "n = int j + 1"
        by (simp_all add: run_loop.simps [of e])
      with j9 t1 l1 f(1) show ?thesis by simp
    next
      case False
      with guard Inr Suc.prems(8) have r: "run_loop e1 (int (Suc j)) = Inr (e', n)"
        by (simp add: run_loop.simps [of e] add.commute)
      have "m = 10 - Suc j" using Suc.hyps(2) by simp
      from Suc.hyps(1) [OF this _ _ Suc.prems(3) _ t1 l1 _ r] f(1) Suc.prems(1,2,4) j
      show ?thesis by simp
    qed
  qed
qed

lemma run_loop_returns:
  fixes e :: "('w, 'r) SimulationEngine"
  assumes "nothing_injected e"
    and "\<And>fs cs ks ts t w. \<exists>w'. collect_step_metrics (metrics_collector e) fs cs ks ts t w = Inr w'"
    and "0 \<le> time_step (config e)" and "0 \<le> current_time e"
    and "end_date (config e) + time_step (config e) \<le> datetime_max"
  shows "\<exists>e' n. run_loop e i = Inr (e', n)"
  using assms
proof (induction e i rule: run_loop.induct)
  case (1 e iteration)
  show ?case
  proof (cases "current_time e \<le> end_date (config e) \<and> iteration < max_iterations (config e)")
    case False
    then show ?thesis by (subst run_loop.simps) auto
  next
    case True
    let ?e3 = "process_contracts (append_snapshot e)"
    have mc: "metrics_collector ?e3 = metrics_collector e"
      by (simp add: process_contracts_def append_snapshot_def)
    from "1.prems"(2) [of "freelancers ?e3" "clients ?e3" "contracts ?e3" "transactions ?e3"
        "current_time ?e3" "outside ?e3"]
    obtain w' where w': "collect_step_metrics (metrics_collector e) (freelancers ?e3) (clients ?e3)
        (contracts ?e3) (transactions ?e3) (current_time ?e3) (outside ?e3) = Inr w'"
      by blast
    then obtain e5 where e5: "collect_metrics ?e3 = Inr e5"
      by (simp add: collect_metrics_def mc Let_def)
    from collect_metrics_frame [of ?e3] e5 have f5: "same_frame ?e3 e5" by simp
    then have t5: "current_time e5 = current_time e" "config e5 = config e"
      by (simp_all add: same_frame_def process_contracts_def append_snapshot_def)
    with True "1.prems"(3,4,5) obtain e1 where e1: "advance_time e5 = Inr e1"
      by (auto simp: advance_time_def datetime_add_def)
    from e5 e1 have st: "step e = Inr e1"
      by (simp add: step_nothing_injected [OF "1.prems"(1)] and_then_def)
    show ?thesis
    proof (cases "check_convergence e1")
      case conv: True
      with True st show ?thesis by (simp add: run_loop.simps [of e])
    next
      case conv: False
      note f = step_frame [OF st]
      from step_nothing_injected_state(3) [OF "1.prems"(1)] st
      have i1: "nothing_injected e1" by simp
      have "\<exists>e' n. run_loop e1 (iteration + 1) = Inr (e', n)"
      proof (rule "1.IH" [OF True st conv i1])
        show "\<exists>w'. collect_step_metrics (metrics_collector e1) fs cs ks ts t w = Inr w'"
          for fs cs ks ts t w
          using "1.prems"(2) f(8) by simp
        show "0 \<le> time_step (config e1)" using "1.prems"(3) f(1) by simp
        show "0 \<le> current_time e1" using "1.prems"(3,4) f(2) by simp
        show "end_date (config e1) + time_step (config e1) \<le> datetime_max"
          using "1.prems"(5) f(1) by simp
      qed
      with True st conv show ?thesis by (simp add: run_loop.simps [of e])
    qed
  qed
qed

lemma run_loop_frame:
  assumes "run_loop e i = Inr (e', n)"
  shows "config e' = config e \<and> metrics_collector e' = metrics_collector e \<and>
    scenarios e' = scenarios e"
  using assms
proof (induction e i rule: run_loop.induct)
  case (1 e iteration)
  show ?case
  proof (cases "current_time e \<le> end_date (config e) \<and> iteration < max_iterations (config e)")
    case False
    with "1.prems" have "e' = e" by (subst (asm) run_loop.simps) auto
    then show ?thesis by simp
  next
    case True
    with "1.prems" obtain e1 where st: "step e = Inr e1"
      by (subst (asm) run_loop.simps) (auto split: sum.splits)
    note f = step_frame [OF st]
    show ?thesis
    proof (cases "check_convergence e1")
      case conv: True
      with True st "1.prems" have "e' = e1" by (subst (asm) run_loop.simps) auto
      with f show ?thesis by simp
    next
      case conv: False
      with True st "1.prems" have "run_loop e1 (iteration + 1) = Inr (e', n)"
        by (subst (asm) run_loop.simps) auto
      from "1.IH" [OF True st conv this] f show ?thesis by simp
    qed
  qed
qed

lemma run_loop_result:
  assumes "run_loop e i = Inr (ef, n)"
  shows "i \<le> n \<and> config ef = config e \<and>
    length (market_snapshots ef) = length (market_snapshots e) + nat (n - i) \<and>
    current_time ef = current_time e + (n - i) * time_step (config e) \<and>
    ((i < n \<and> check_convergence ef) \<or>
     \<not> (current_time ef \<le> end_date (config ef) \<and> n < max_iterations (config ef)))"
  using assms
proof (induction e i rule: run_loop.induct)
  case (1 e iteration)
  show ?case
  proof (cases "current_time e \<le> end_date (config e) \<and> iteration < max_iterations (config e)")
    case False
    with "1.prems" have "ef = e" "n = iteration" by (subst (asm) run_loop.simps, auto)+
    with False show ?thesis by simp
  next
    case True
    with "1.prems" obtain e1 where st: "step e = Inr e1"
      by (subst (asm) run_loop.simps) (auto split: sum.splits)
    note f = step_frame [OF st]
    show ?thesis
    proof (cases "check_convergence e1")
      case conv: True
      with True st "1.prems" have "ef = e1" "n = iteration + 1"
        by (subst (asm) run_loop.simps, auto)+
      with f conv show ?thesis by simp
    next
      case conv: False
      with True st "1.prems" have r: "run_loop e1 (iteration + 1) = Inr (ef, n)"
        by (subst (asm) run_loop.simps) auto
      from "1.IH" [OF True st conv r] have ih:
        "iteration + 1 \<le> n" "config ef = config e1"
        "length (market_snapshots ef) = length (market_snapshots e1) + nat (n - (iteration + 1))"
        "current_time ef = current_time e1 + (n - (iteration + 1)) * time_step (config e1)"
        "(iteration + 1 < n \<and> check_convergence ef) \<or>
         \<not> (current_time ef \<le> end_date (config ef) \<and> n < max_iterations (config ef))"
        by blast+
      have "length (market_snapshots ef) = length (market_snapshots e) + nat (n - iteration)"
        using ih(1,3) f(3) by (simp add: nat_diff_distrib' Suc_nat_eq_nat_zadd1)
      moreover have "current_time ef = current_time e + (n - iteration) * time_step (config e)"
        using ih(4) f(1,2) by (simp add: algebra_simps)
      moreover have "(iteration < n \<and> check_convergence ef) \<or>
         \<not> (current_time ef \<le> end_date (config ef) \<and> n < max_iterations (config ef))"
        using ih(5) by auto
      ultimately show ?thesis using ih(1,2) f(1) by simp
    qed
  qed
qed

text \<open>
  C2. The loop of run: it ends at once when the current time is past the end date or the
  iteration cap is reached; otherwise it calls step, raises what step raises, counts the
  iteration, ends if the convergence predicate now holds and goes on if not. For a fresh
  engine configured from 2024-01-01 to 2024-01-10 in steps of one day with a cap of 1000,
  a run that returns has made exactly 10 steps and leaves the current time at 2024-01-11.
  In general a loop that returns has made one snapshot and one advance of the clock for
  each iteration it counted, and it ended because the predicate held after a step or
  because the guard failed.
\<close>

theorem run_spec:
  fixes e :: "('w, 'r) SimulationEngine"
  shows
  "(\<not> (current_time e \<le> end_date (config e) \<and> i < max_iterations (config e)) \<longrightarrow>
      run_loop e i = Inr (e, i)) \<and>
   (current_time e \<le> end_date (config e) \<and> i < max_iterations (config e) \<and>
      step e = Inl x \<longrightarrow> run_loop e i = Inl x) \<and>
   (current_time e \<le> end_date (config e) \<and> i < max_iterations (config e) \<and>
      step e = Inr e1 \<and> check_convergence e1 \<longrightarrow> run_loop e i = Inr (e1, i + 1)) \<and>
   (current_time e \<le> end_date (config e) \<and> i < max_iterations (config e) \<and>
      step e = Inr e1 \<and> \<not> check_convergence e1 \<longrightarrow> run_loop e i = run_loop e1 (i + 1)) \<and>
   (start_date (config e) = datetime_ymd 2024 1 1 \<and> end_date (config e) = datetime_ymd 2024 1 10 \<and>
      time_step (config e) = timedelta_days 1 \<and> max_iterations (config e) = 1000 \<and>
      current_time e = start_date (config e) \<and> market_snapshots e = [] \<and>
      run e = Inr (results, e') \<longrightarrow>
        run_loop (initialize_population e) 0 = Inr (e', 10) \<and>
        current_time e' = datetime_ymd 2024 1 11 \<and>
        length (market_snapshots e') = 10 \<and> total_steps results = 10 \<and>
        end_time results = datetime_ymd 2024 1 11) \<and>
   (run_loop e i = Inr (ef, n) \<longrightarrow>
      i \<le> n \<and> config ef = config e \<and>
      length (market_snapshots ef) = length (market_snapshots e) + nat (n - i) \<and>
      current_time ef = current_time e + (n - i) * time_step (config e) \<and>
      ((i < n \<and> check_convergence ef) \<or>
       \<not> (current_time ef \<le> end_date (config ef) \<and> n < max_iterations (config ef))))"
proof (intro conjI impI)
  assume "run_loop e i = Inr (ef, n)"
  note r = run_loop_result [OF this]
  from r show "i \<le> n" by blast
  from r show "config ef = config e" by blast
  from r show "length (market_snapshots ef) = length (market_snapshots e) + nat (n - i)" by blast
  from r show "current_time ef = current_time e + (n - i) * time_step (config e)" by blast
  from r show "(i < n \<and> check_convergence ef) \<or>
       \<not> (current_time ef \<le> end_date (config ef) \<and> n < max_iterations (config ef))"
    by blast
next
  assume "\<not> (current_time e \<le> end_date (config e) \<and> i < max_iterations (config e))"
  then show "run_loop e i = Inr (e, i)" by (subst run_loop.simps) auto
next
  assume "current_time e \<le> end_date (config e) \<and> i < max_iterations (config e) \<and> step e = Inl x"
  then show "run_loop e i = Inl x" by (simp add: run_loop.simps [of e])
next
  assume "current_time e \<le> end_date (config e) \<and> i < max_iterations (config e) \<and>
      step e = Inr e1 \<and> check_convergence e1"
  then show "run_loop e i = Inr (e1, i + 1)" by (simp add: run_loop.simps [of e])
next
  assume "current_time e \<le> end_date (config e) \<and> i < max_iterations (config e) \<and>
      step e = Inr e1 \<and> \<not> check_convergence e1"
  then show "run_loop e i = run_loop e1 (i + 1)" by (simp add: run_loop.simps [of e])
next
  assume h: "start_date (config e) = datetime_ymd 2024 1 1 \<and>
      end_date (config e) = datetime_ymd 2024 1 10 \<and>
      time_step (config e) = timedelta_days 1 \<and> max_iterations (config e) = 1000 \<and>
      current_time e = start_date (config e) \<and> market_snapshots e = [] \<and>
      run e = Inr (results, e')"
  then obtain n where loop: "run_loop e 0 = Inr (e', n)"
    and res: "generate_results e' = Inr results"
    by (auto simp: run_def initialize_population_def split: sum.splits prod.splits)
  have "n = 10 \<and> current_time e' = datetime_ymd 2024 1 1 + 10 * timedelta_days 1 \<and>
      length (market_snapshots e') = 10 \<and> config e' = config e"
  proof (rule run_loop_fixed_count [where j = 0 and e = e])
    show "time_step (config e) = timedelta_days 1" using h by simp
    show "end_date (config e) = datetime_ymd 2024 1 1 + 9 * timedelta_days 1"
      using h by (simp add: date_defs)
    show "0 < timedelta_days 1" by (simp add: date_defs)
    show "10 \<le> max_iterations (config e)" using h by simp
    show "current_time e = datetime_ymd 2024 1 1 + int 0 * timedelta_days 1" using h by simp
    show "length (market_snapshots e) = 0" using h by simp
    show "(0::nat) \<le> 10" by simp
    show "run_loop e (int 0) = Inr (e', n)" using loop by simp
  qed
  moreover have "datetime_ymd 2024 1 1 + 10 * timedelta_days 1 = datetime_ymd 2024 1 11"
    by (simp add: date_defs)
  ultimately have r: "n = 10" "current_time e' = datetime_ymd 2024 1 11"
    "length (market_snapshots e') = 10"
    by simp_all
  from loop r(1) show "run_loop (initialize_population e) 0 = Inr (e', 10)"
    by (simp add: initialize_population_def)
  from r show "current_time e' = datetime_ymd 2024 1 11" "length (market_snapshots e') = 10"
    by simp_all
  from res r show "total_steps results = 10" "end_time results = datetime_ymd 2024 1 11"
    by (auto simp: generate_results_def split: sum.splits)
qed

theorem run_spec_witness:
  "run_loop (engine_jan2024\<lparr>current_time := datetime_ymd 2024 1 11\<rparr>) 10 =
     Inr (engine_jan2024\<lparr>current_time := datetime_ymd 2024 1 11\<rparr>, 10) \<and>
   run_loop engine_failing 0 = Inl (Raised ''no enforcement data'', state_of (step engine_failing)) \<and>
   run_loop engine_jan2024 0 = run_loop (state_of (step engine_jan2024)) 1 \<and>
   (\<exists>results e'. run engine_jan2024 = Inr (results, e') \<and>
      current_time e' = datetime_ymd 2024 1 11 \<and> total_steps results = 10) \<and>
   (\<exists>e' n. run_loop engine_jan2024 0 = Inr (e', n) \<and> length (market_snapshots e') = nat n)"
proof -
  let ?late = "engine_jan2024\<lparr>current_time := datetime_ymd 2024 1 11\<rparr>"
  have "\<not> (current_time ?late \<le> end_date (config ?late) \<and> 10 < max_iterations (config ?late))"
    by (simp add: config_jan2024_def date_defs)
  with run_spec [of ?late 10] have 1: "run_loop ?late 10 = Inr (?late, 10)" by blast
  have "current_time engine_failing \<le> end_date (config engine_failing) \<and>
      0 < max_iterations (config engine_failing)"
    by (simp add: engine_defs config_jan2024_def date_defs)
  with run_spec [of engine_failing 0 "(Raised ''no enforcement data'', state_of (step engine_failing))"]
    step_engine_failing
  have 2: "run_loop engine_failing 0 =
      Inl (Raised ''no enforcement data'', state_of (step engine_failing))"
    by blast
  have g: "current_time engine_jan2024 \<le> end_date (config engine_jan2024) \<and>
      0 < max_iterations (config engine_jan2024)"
    by (simp add: config_jan2024_def date_defs)
  have "length (market_snapshots (state_of (step engine_jan2024))) = 1"
    using step_frame(3) [OF step_engine_jan2024] by simp
  then have "\<not> check_convergence (state_of (step engine_jan2024))"
    by (simp add: check_convergence_def)
  with run_spec [of engine_jan2024 0 _ "state_of (step engine_jan2024)"] g step_engine_jan2024
  have 3: "run_loop engine_jan2024 0 = run_loop (state_of (step engine_jan2024)) 1"
    by simp
  have "\<exists>e' n. run_loop engine_jan2024 0 = Inr (e', n)"
  proof (rule run_loop_returns)
    show "nothing_injected engine_jan2024" by (simp add: nothing_injected_def)
    show "\<exists>w'. collect_step_metrics (metrics_collector engine_jan2024) fs cs ks ts t w = Inr w'"
      for fs cs ks ts t w
      by (simp add: null_collector_def)
    show "0 \<le> time_step (config engine_jan2024)" by (simp add: config_jan2024_def date_defs)
    show "0 \<le> current_time engine_jan2024" by (simp add: date_defs)
    show "end_date (config engine_jan2024) + time_step (config engine_jan2024) \<le> datetime_max"
      by (simp add: config_jan2024_def date_defs)
  qed
  then obtain e' n where loop: "run_loop engine_jan2024 0 = Inr (e', n)" by blast
  from run_loop_frame [OF loop]
  have "metrics_collector e' = null_collector" "scenarios e' = []" by simp_all
  then obtain results where "generate_results e' = Inr results"
    by (simp add: generate_results_def null_collector_def)
  with loop have r: "run engine_jan2024 = Inr (results, e')"
    by (simp add: run_def initialize_population_def)
  have "start_date (config engine_jan2024) = datetime_ymd 2024 1 1 \<and>
      end_date (config engine_jan2024) = datetime_ymd 2024 1 10 \<and>
      time_step (config engine_jan2024) = timedelta_days 1 \<and>
      max_iterations (config engine_jan2024) = 1000 \<and>
      current_time engine_jan2024 = start_date (config engine_jan2024) \<and>
      market_snapshots engine_jan2024 = []"
    by (simp add: config_jan2024_def)
  with run_spec [of engine_jan2024 0 _ _ results e'] r
  have "current_time e' = datetime_ymd 2024 1 11 \<and> total_steps results = 10" by blast
  with r have 4: "\<exists>results e'. run engine_jan2024 = Inr (results, e') \<and>
      current_time e' = datetime_ymd 2024 1 11 \<and> total_steps results = 10"
    by blast
  from run_spec [THEN conjunct2, THEN conjunct2, THEN conjunct2, THEN conjunct2, THEN conjunct2,
      THEN mp, OF loop]
  have "length (market_snapshots e') = nat n" by simp
  with loop have 5: "\<exists>e' n. run_loop engine_jan2024 0 = Inr (e', n) \<and>
      length (market_snapshots e') = nat n"
    by blast
  from 1 2 3 4 5 show ?thesis by (intro conjI)
qed

section \<open>Callables that raise\<close>

text \<open>
  C8. The engine catches nothing. An exception from the market model, a behavioural
  model, a scenario or the metrics collector ends the step with that exception and with
  the state the failing call left: the snapshot of phase 1, the contracts as phases 3 and
  4 left them and the unadvanced clock are all still there. The failing call is the last
  one made; the loop of run and run itself end with the same exception and state.
\<close>

theorem strategy_failure_propagates:
  fixes e :: "('w, 'r) SimulationEngine"
  shows
  "(update_market_conditions e = Inl x \<longrightarrow> step e = Inl x) \<and>
   (update_market_conditions e = Inr e1 \<and> execute_agent_behaviors e1 = Inl x \<longrightarrow>
      step e = Inl x \<and>
      length (market_snapshots (snd x)) = Suc (length (market_snapshots e))) \<and>
   (update_market_conditions e = Inr e1 \<and> execute_agent_behaviors e1 = Inr e2 \<and>
    apply_regulatory_scenarios (process_contracts e2) = Inl x \<longrightarrow>
      step e = Inl x \<and> market_snapshots (snd x) = market_snapshots e2 \<and>
      current_time (snd x) = current_time e) \<and>
   (update_market_conditions e = Inr e1 \<and> execute_agent_behaviors e1 = Inr e2 \<and>
    apply_regulatory_scenarios (process_contracts e2) = Inr e4 \<and> collect_metrics e4 = Inl x \<longrightarrow>
      step e = Inl x \<and> market_snapshots (snd x) = market_snapshots e4 \<and>
      contracts (snd x) = contracts e4 \<and> freelancers (snd x) = freelancers e4 \<and>
      clients (snd x) = clients e4 \<and> current_time (snd x) = current_time e) \<and>
   (m f (market_state e) (map snd (clients e)) (current_time e) (outside e)
      = Inl (err, (f', ms', cs', w')) \<longrightarrow>
      freelancer_calls m j ((k, f) # others) e =
        Inl (err, e\<lparr>calls := calls e @
                       [Call_freelancer_behavior_model k (market_state_ref e) (current_time e)],
                     freelancers := (freelancers e)[j := (k, f')],
                     market_snapshots := store_market_state ms' (market_snapshots e),
                     clients := store_values cs' (clients e), outside := w'\<rparr>)) \<and>
   (is_active scenario (current_time e) (outside e) = Inr (True, w) \<and>
    scenario_apply scenario (freelancers e) (clients e) (contracts e) (current_time e) w
      = Inl (err, p) \<longrightarrow>
      scenario_calls j (scenario # rest) e =
        Inl (err, store_population p
               (e\<lparr>calls := calls e @ [Call_is_active j (current_time e),
                                       Call_apply j (current_time e)]\<rparr>))) \<and>
   (collect_step_metrics (metrics_collector e) (freelancers e) (clients e) (contracts e)
      (transactions e) (current_time e) (outside e) = Inl (err, w) \<longrightarrow>
      collect_metrics e =
        Inl (err, e\<lparr>calls := calls e @ [Call_collect_step_metrics (current_time e)],
                     outside := w\<rparr>)) \<and>
   (current_time e \<le> end_date (config e) \<and> i < max_iterations (config e) \<and> step e = Inl x \<longrightarrow>
      run_loop e i = Inl x) \<and>
   (run_loop (initialize_population e) 0 = Inl x \<longrightarrow> run e = Inl x)"
proof (intro conjI impI)
  assume "update_market_conditions e = Inl x"
  then show "step e = Inl x" by (simp add: step_def and_then_def)
next
  assume h: "update_market_conditions e = Inr e1 \<and> execute_agent_behaviors e1 = Inl x"
  then show "step e = Inl x" by (simp add: step_def and_then_def)
  obtain er s where x: "x = (er, s)" by (cases x)
  from h x execute_agent_behaviors_frame [of e1]
  have "length (market_snapshots s) = length (market_snapshots e1)" by simp
  with update_market_conditions_Inr(1) [of e e1] h x
  show "length (market_snapshots (snd x)) = Suc (length (market_snapshots e))" by simp
next
  assume h: "update_market_conditions e = Inr e1 \<and> execute_agent_behaviors e1 = Inr e2 \<and>
    apply_regulatory_scenarios (process_contracts e2) = Inl x"
  then show "step e = Inl x" by (simp add: step_def and_then_def)
  obtain er s where x: "x = (er, s)" by (cases x)
  from h x apply_regulatory_scenarios_frame [of "process_contracts e2"]
  have a: "same_frame (process_contracts e2) s" "market_snapshots s = market_snapshots e2"
    by simp_all
  from a(2) x show "market_snapshots (snd x) = market_snapshots e2" by simp
  from h update_market_conditions_frame [of e] execute_agent_behaviors_frame [of e1]
  have "same_frame e e1" "same_frame e1 e2" by simp_all
  with a(1) x show "current_time (snd x) = current_time e" by (simp add: same_frame_def)
next
  assume h: "update_market_conditions e = Inr e1 \<and> execute_agent_behaviors e1 = Inr e2 \<and>
    apply_regulatory_scenarios (process_contracts e2) = Inr e4 \<and> collect_metrics e4 = Inl x"
  then show "step e = Inl x" by (simp add: step_def and_then_def)
  obtain er s where x: "x = (er, s)" by (cases x)
  from h x collect_metrics_frame [of e4]
  have c: "same_frame e4 s" "market_snapshots s = market_snapshots e4"
    "contracts s = contracts e4" "freelancers s = freelancers e4" "clients s = clients e4"
    by simp_all
  with x show "market_snapshots (snd x) = market_snapshots e4" "contracts (snd x) = contracts e4"
    "freelancers (snd x) = freelancers e4" "clients (snd x) = clients e4"
    by simp_all
  from h update_market_conditions_frame [of e] execute_agent_behaviors_frame [of e1]
    apply_regulatory_scenarios_frame [of "process_contracts e2"]
  have "same_frame e e1" "same_frame e1 e2" "same_frame (process_contracts e2) e4" by simp_all
  with c(1) x show "current_time (snd x) = current_time e" by (simp add: same_frame_def)
next
  assume "m f (market_state e) (map snd (clients e)) (current_time e) (outside e)
      = Inl (err, (f', ms', cs', w'))"
  then show "freelancer_calls m j ((k, f) # others) e =
        Inl (err, e\<lparr>calls := calls e @
                       [Call_freelancer_behavior_model k (market_state_ref e) (current_time e)],
                     freelancers := (freelancers e)[j := (k, f')],
                     market_snapshots := store_market_state ms' (market_snapshots e),
                     clients := store_values cs' (clients e), outside := w'\<rparr>)"
    by (simp add: Let_def)
next
  assume "is_active scenario (current_time e) (outside e) = Inr (True, w) \<and>
    scenario_apply scenario (freelancers e) (clients e) (contracts e) (current_time e) w
      = Inl (err, p)"
  then show "scenario_calls j (scenario # rest) e =
        Inl (err, store_population p
               (e\<lparr>calls := calls e @ [Call_is_active j (current_time e),
                                       Call_apply j (current_time e)]\<rparr>))"
    by (simp add: Let_def)
next
  assume "collect_step_metrics (metrics_collector e) (freelancers e) (clients e) (contracts e)
      (transactions e) (current_time e) (outside e) = Inl (err, w)"
  then show "collect_metrics e =
        Inl (err, e\<lparr>calls := calls e @ [Call_collect_step_metrics (current_time e)],
                     outside := w\<rparr>)"
    by (simp add: collect_metrics_def Let_def)
next
  assume "current_time e \<le> end_date (config e) \<and> i < max_iterations (config e) \<and> step e = Inl x"
  then show "run_loop e i = Inl x" by (subst run_loop.simps) simp
next
  assume "run_loop (initialize_population e) 0 = Inl x"
  then show "run e = Inl x" by (simp add: run_def)
qed

theorem strategy_failure_propagates_witness:
  "step engine_failing = Inl (Raised ''no enforcement data'', state_of (step engine_failing)) \<and>
   run engine_failing = Inl (Raised ''no enforcement data'', state_of (step engine_failing)) \<and>
   length (market_snapshots (state_of (step engine_failing))) = 1 \<and>
   contracts (state_of (step engine_failing)) ! 0
     = (''k1'', contract_jan05\<lparr>Contract_status := COMPLETED\<rparr>) \<and>
   current_time (state_of (step engine_failing)) = datetime_ymd 2024 1 6 \<and>
   map callee_of (calls (state_of (step engine_failing))) = [IsActive 0, Apply 0]"
proof -
  let ?e = engine_failing
  let ?e1 = "append_snapshot ?e"
  let ?e3 = "process_contracts ?e1"
  let ?p = "(freelancers ?e3, clients ?e3, contracts ?e3, outside ?e3)"
  let ?s = "store_population ?p
      (?e3\<lparr>calls := calls ?e3 @ [Call_is_active 0 (current_time ?e3),
                                     Call_apply 0 (current_time ?e3)]\<rparr>)"
  let ?x = "(Raised ''no enforcement data'', ?s)"
  have u: "update_market_conditions ?e = Inr ?e1"
    by (simp add: update_market_conditions_def engine_defs)
  have b: "execute_agent_behaviors ?e1 = Inr ?e1"
    by (simp add: execute_agent_behaviors_def execute_freelancer_behaviors_def
        execute_client_behaviors_def and_then_def append_snapshot_def engine_defs)
  have sc: "scenarios ?e3 = [scenario_failing]"
    by (simp add: append_snapshot_def engine_defs)
  have "is_active scenario_failing (current_time ?e3) (outside ?e3) = Inr (True, outside ?e3) \<and>
      scenario_apply scenario_failing (freelancers ?e3) (clients ?e3) (contracts ?e3)
        (current_time ?e3) (outside ?e3) = Inl (Raised ''no enforcement data'', ?p)"
    by (simp add: scenario_failing_def)
  then have "scenario_calls 0 [scenario_failing] ?e3 = Inl ?x"
    by (rule strategy_failure_propagates [THEN conjunct2, THEN conjunct2, THEN conjunct2,
      THEN conjunct2, THEN conjunct2, THEN conjunct1, THEN mp])
  then have r: "apply_regulatory_scenarios ?e3 = Inl ?x"
    unfolding apply_regulatory_scenarios_def sc .
  from strategy_failure_propagates [THEN conjunct2, THEN conjunct2, THEN conjunct1, THEN mp,
      of ?e ?e1 ?e1 ?x] u b r
  have st: "step ?e = Inl ?x" and snaps: "market_snapshots (snd ?x) = market_snapshots ?e1"
    and time: "current_time (snd ?x) = current_time ?e"
    by simp_all
  from st have s: "state_of (step ?e) = ?s" by simp
  have g: "current_time ?e \<le> end_date (config ?e) \<and> 0 < max_iterations (config ?e)"
    by (simp add: engine_defs config_jan2024_def date_defs)
  from strategy_failure_propagates [THEN conjunct2, THEN conjunct2, THEN conjunct2,
      THEN conjunct2, THEN conjunct2, THEN conjunct2, THEN conjunct2, THEN conjunct1, THEN mp,
      of ?e 0 ?x] g st
  have "run_loop ?e 0 = Inl ?x" by simp
  then have "run_loop (initialize_population ?e) 0 = Inl ?x"
    by (simp add: initialize_population_def)
  from strategy_failure_propagates [THEN conjunct2, THEN conjunct2, THEN conjunct2,
      THEN conjunct2, THEN conjunct2, THEN conjunct2, THEN conjunct2, THEN conjunct2, THEN mp,
      OF this]
  have rn: "run ?e = Inl ?x" .
  from snaps have 3: "length (market_snapshots ?s) = 1"
    by (simp add: append_snapshot_def engine_defs)
  from time have 5: "current_time ?s = datetime_ymd 2024 1 6" by (simp add: engine_defs)
  have 4: "contracts ?s ! 0 = (''k1'', contract_jan05\<lparr>Contract_status := COMPLETED\<rparr>)"
    by (simp add: store_population_def process_contracts_def process_contract_def
        append_snapshot_def engine_defs contract_jan05_def date_defs)
  have 6: "map callee_of (calls ?s) = [IsActive 0, Apply 0]"
    by (simp add: store_population_def process_contracts_def append_snapshot_def engine_defs)
  from st rn 3 4 5 6 show ?thesis unfolding s by (intro conjI)
qed

section \<open>Entity identifiers\<close>

text \<open>
  What construction does to the id: a non-empty id is kept, an empty one becomes the token
  drawn. Whether two tokens differ is a matter of the random source, not of this code.
\<close>

lemma post_init_id:
  "Freelancer_id (Freelancer_post_init token f) = (if Freelancer_id f = [] then token else Freelancer_id f)"
  "Client_id (Client_post_init token c) = (if Client_id c = [] then token else Client_id c)"
  "Contract_id (Contract_post_init token k) = (if Contract_id k = [] then token else Contract_id k)"
  "Transaction_id (Transaction_post_init token t) =
     (if Transaction_id t = [] then token else Transaction_id t)"
  by (simp_all add: Freelancer_post_init_def Client_post_init_def Contract_post_init_def
      Transaction_post_init_def)

section \<open>The random seed\<close>

lemma seeded_init_ignores_ambient:
  assumes "random_seed cfg = Some s" and "s \<noteq> 0" and "private_state w1 = private_state w2"
  shows "SimulationEngine_init mc cfg w1 = SimulationEngine_init mc cfg (w2 :: 'w world)"
proof -
  from assms(3) have "np_random_seed s w1 = np_random_seed s w2"
    by (cases w1, cases w2) (simp add: np_random_seed_def)
  with assms(1,2) show ?thesis by (simp add: SimulationEngine_init_def)
qed

text \<open>
  With a seed that the constructor applies, the run does not depend on the generator state
  of the process: \<open>prepare\<close> is whatever the caller does between construction and
  \<open>run()\<close> (populating the mappings, injecting models, registering scenarios).
\<close>

lemma seeded_runs_agree:
  assumes "random_seed cfg = Some s" and "s \<noteq> 0" and "private_state w1 = private_state w2"
  shows "run (prepare (SimulationEngine_init mc cfg w1)) =
    run (prepare (SimulationEngine_init mc cfg (w2 :: 'w world)))"
proof -
  have "SimulationEngine_init mc cfg w1 = SimulationEngine_init mc cfg w2"
    by (rule seeded_init_ignores_ambient [OF assms])
  then show ?thesis by (rule arg_cong)
qed

lemma run_engine_seed_zero:
  "\<exists>r e. run (engine_seed_zero n) = Inr (r, e) \<and>
     map average_hourly_rate (market_evolution r) = [real n] \<and>
     map hourly_rate (entities_freelancers r) = [real n]"
proof -
  let ?e = "engine_seed_zero n"
  have st: "step ?e = Inr (state_of (step ?e))"
    by (simp add: engine_seed_zero_def SimulationEngine_init_def config_seed_zero_def
        set_behavioral_models_def market_model_random_def phase_defs example_defs date_defs)
  let ?e1 = "state_of (step ?e)"
  have g: "current_time ?e \<le> end_date (config ?e) \<and> 0 < max_iterations (config ?e)"
    by (simp add: engine_seed_zero_def SimulationEngine_init_def config_seed_zero_def
        set_behavioral_models_def config_jan2024_def)
  have g1: "\<not> (current_time ?e1 \<le> end_date (config ?e1) \<and> 1 < max_iterations (config ?e1))"
    using step_frame(1,2) [OF st]
    by (simp add: engine_seed_zero_def SimulationEngine_init_def config_seed_zero_def
        set_behavioral_models_def config_jan2024_def date_defs)
  have nc: "\<not> check_convergence ?e1"
    using step_frame(3) [OF st]
    by (simp add: check_convergence_def engine_seed_zero_def SimulationEngine_init_def
        set_behavioral_models_def)
  have l1: "run_loop ?e1 1 = Inr (?e1, 1)" using g1 by (subst run_loop.simps) auto
  have "run_loop ?e 0 = run_loop ?e1 1"
    using run_loop_continue [OF g st nc] by simp
  with l1 have loop: "run_loop ?e 0 = Inr (?e1, 1)" by simp
  have s: "map average_hourly_rate (market_snapshots ?e1) = [real n]"
    and f: "map (hourly_rate \<circ> snd) (freelancers ?e1) = [real n]"
    and m: "metrics_collector ?e1 = null_collector" and c: "scenarios ?e1 = []"
    by (simp_all add: engine_seed_zero_def SimulationEngine_init_def config_seed_zero_def
        set_behavioral_models_def market_model_random_def phase_defs example_defs date_defs
        new_snapshot_def calculate_average_hourly_rate_def np_mean_def freelancer_ann_def)
  from m c obtain r where r: "generate_results ?e1 = Inr r"
    by (simp add: generate_results_def null_collector_def)
  with loop have "run ?e = Inr (r, ?e1)" by (simp add: run_def initialize_population_def)
  moreover from r s f have "map average_hourly_rate (market_evolution r) = [real n]"
    "map hourly_rate (entities_freelancers r) = [real n]"
    by (auto simp: generate_results_def m c null_collector_def)
  ultimately show ?thesis by (intro exI [of _ r] exI [of _ ?e1] conjI)
qed

text \<open>
  C7. With \<open>random_seed = 0\<close> the constructor leaves the generator behind
  \<open>np.random\<close> as it found it, so two runs of the same configuration with the same
  market model, one that draws from \<open>np.random\<close>, differ in their market snapshots and
  in their final freelancers when the two processes started from different generator
  states.
\<close>

theorem seed_zero_runs_differ:
  "random_seed config_seed_zero = Some 0 \<and>
   np_random_state (outside (SimulationEngine_init null_collector config_seed_zero
      \<lparr>np_random_state = Entropy 1, private_state = ()\<rparr>)) = Entropy 1 \<and>
   (\<exists>r1 e1 r2 e2. run (engine_seed_zero 1) = Inr (r1, e1) \<and>
      run (engine_seed_zero 2) = Inr (r2, e2) \<and>
      market_evolution r1 \<noteq> market_evolution r2 \<and>
      entities_freelancers r1 \<noteq> entities_freelancers r2)"
proof -
  have 1: "random_seed config_seed_zero = Some 0"
    by (simp add: config_seed_zero_def)
  have 2: "np_random_state (outside (SimulationEngine_init null_collector config_seed_zero
      \<lparr>np_random_state = Entropy 1, private_state = ()\<rparr>)) = Entropy 1"
    by (simp add: SimulationEngine_init_def config_seed_zero_def)
  from run_engine_seed_zero [of 1] obtain r1 e1 where
    a: "run (engine_seed_zero 1) = Inr (r1, e1)"
    "map average_hourly_rate (market_evolution r1) = [1]"
    "map hourly_rate (entities_freelancers r1) = [1]"
    by auto
  from run_engine_seed_zero [of 2] obtain r2 e2 where
    b: "run (engine_seed_zero 2) = Inr (r2, e2)"
    "map average_hourly_rate (market_evolution r2) = [2]"
    "map hourly_rate (entities_freelancers r2) = [2]"
    by auto
  from a(2) b(2) have "market_evolution r1 \<noteq> market_evolution r2" by auto
  moreover from a(3) b(3) have "entities_freelancers r1 \<noteq> entities_freelancers r2" by auto
  ultimately have "run (engine_seed_zero 1) = Inr (r1, e1) \<and>
      run (engine_seed_zero 2) = Inr (r2, e2) \<and>
      market_evolution r1 \<noteq> market_evolution r2 \<and>
      entities_freelancers r1 \<noteq> entities_freelancers r2"
    using a(1) b(1) by (intro conjI)
  then have "\<exists>r1 e1 r2 e2. run (engine_seed_zero 1) = Inr (r1, e1) \<and>
      run (engine_seed_zero 2) = Inr (r2, e2) \<and>
      market_evolution r1 \<noteq> market_evolution r2 \<and>
      entities_freelancers r1 \<noteq> entities_freelancers r2"
    by (intro exI)
  with 1 2 show ?thesis by (intro conjI)
qed

end
